theory Spec2Isabelle
  imports Complex_Main "HOL-Library.Char_ord" "HOL-Library.List_Lexorder" "HOL-Library.Multiset"
begin

section \<open>Data model\<close>

text \<open>
  A pandas DataFrame as the toolkit uses it: an index of \<open>nrows\<close> rows and an ordered
  list of labelled columns. Two column kinds are modelled, the ones \<open>pd.read_csv\<close>
  yields with missing values: a numeric column (float64, a missing value is NaN, written
  \<open>None\<close>) and an object column (text, a missing value is \<open>None\<close>). Numbers are
  real numbers: rounding of floating-point arithmetic is not modelled.
\<close>

datatype column = NumCol "real option list" | ObjCol "string option list"

record dataframe =
  nrows :: nat
  columns :: "(string \<times> column) list"

datatype error = ValueError | KeyError | TypeError | AttributeError

text \<open>
  What the methods print, one constructor per format string:
  \<^item> \<open>Imputed c s\<close>: "Imputed column 'c' with s";
  \<^item> \<open>Removing c p\<close>: "Column 'c' has p% missing values. Removing this column.";
  \<^item> \<open>BoxCoxSkipped c\<close>: "Column c contains non-positive values and cannot be Box-Cox
    transformed."
\<close>

datatype notice = Imputed string string | Removing string real | BoxCoxSkipped string

definition col_length :: "column \<Rightarrow> nat" where
  "col_length c = (case c of NumCol xs \<Rightarrow> length xs | ObjCol xs \<Rightarrow> length xs)"

definition names :: "dataframe \<Rightarrow> string list" where
  "names d = map fst (columns d)"

text \<open>Well-formed frames: unique column labels, every column as long as the index.\<close>

definition wf_df :: "dataframe \<Rightarrow> bool" where
  "wf_df d \<longleftrightarrow> distinct (names d) \<and> (\<forall>c \<in> set (columns d). col_length (snd c) = nrows d)"

subsection \<open>pandas primitives\<close>

fun isnull :: "column \<Rightarrow> bool list" where
  "isnull (NumCol xs) = map (\<lambda>x. x = None) xs"
| "isnull (ObjCol xs) = map (\<lambda>x. x = None) xs"

definition null_count :: "column \<Rightarrow> nat" where
  "null_count c = length (filter (\<lambda>b. b) (isnull c))"

text \<open>\<open>df[column]\<close>: KeyError on a label the frame does not have.\<close>

definition getitem :: "dataframe \<Rightarrow> string \<Rightarrow> error + column" where
  "getitem d column = (case map_of (columns d) column of None \<Rightarrow> Inl KeyError | Some c \<Rightarrow> Inr c)"

text \<open>The values of an existing column replaced (what an in-place method on \<open>df[column]\<close> does).\<close>

definition replace_column :: "string \<Rightarrow> column \<Rightarrow> dataframe \<Rightarrow> dataframe" where
  "replace_column column c d =
     d\<lparr>columns := map (\<lambda>(k, v). if k = column then (k, c) else (k, v)) (columns d)\<rparr>"

text \<open>\<open>df[column] = values\<close>: replaces an existing column, appends a new one.\<close>

definition setitem :: "string \<Rightarrow> column \<Rightarrow> dataframe \<Rightarrow> dataframe" where
  "setitem column c d =
     (if column \<in> set (names d) then replace_column column c d
      else d\<lparr>columns := columns d @ [(column, c)]\<rparr>)"

text \<open>\<open>df.drop(columns=[column])\<close>.\<close>

definition drop_columns :: "string \<Rightarrow> dataframe \<Rightarrow> error + dataframe" where
  "drop_columns column d =
     (if column \<in> set (names d)
      then Inr (d\<lparr>columns := filter (\<lambda>(k, v). k \<noteq> column) (columns d)\<rparr>)
      else Inl KeyError)"

definition take_rows :: "bool list \<Rightarrow> column \<Rightarrow> column" where
  "take_rows keep c =
     (case c of NumCol xs \<Rightarrow> NumCol (map snd (filter fst (zip keep xs)))
              | ObjCol xs \<Rightarrow> ObjCol (map snd (filter fst (zip keep xs))))"

text \<open>\<open>df.dropna(subset=[column])\<close>: the rows where the column is null are removed.\<close>

definition dropna_subset :: "string \<Rightarrow> dataframe \<Rightarrow> error + dataframe" where
  "dropna_subset column d =
     (case map_of (columns d) column of
        None \<Rightarrow> Inl KeyError
      | Some c \<Rightarrow>
          (let keep = map Not (isnull c)
           in Inr \<lparr>nrows = length (filter (\<lambda>b. b) keep),
                   columns = map (\<lambda>(k, v). (k, take_rows keep v)) (columns d)\<rparr>))"

definition notnull_values :: "'a option list \<Rightarrow> 'a list" where
  "notnull_values xs = List.map_filter (\<lambda>x. x) xs"

text \<open>\<open>Series.median()\<close> and \<open>Series.mean()\<close> skip nulls; on no value at all they give NaN.\<close>

definition median :: "real option list \<Rightarrow> real option" where
  "median xs =
     (let ys = sort (notnull_values xs); n = length ys
      in if n = 0 then None
         else if odd n then Some (ys ! (n div 2))
         else Some ((ys ! (n div 2 - 1) + ys ! (n div 2)) / 2))"

definition mean :: "real option list \<Rightarrow> real option" where
  "mean xs =
     (let ys = notnull_values xs; n = length ys
      in if n = 0 then None else Some (sum_list ys / real n))"

text \<open>\<open>Series.mode()\<close>: the most frequent non-null values, sorted; empty on no value at all.\<close>

definition mode :: "string option list \<Rightarrow> string list" where
  "mode xs =
     (let ys = notnull_values xs; m = fold max (map (count_list ys) ys) 0
      in sort (remdups (filter (\<lambda>y. count_list ys y = m) ys)))"

text \<open>\<open>Series.fillna(value)\<close>; filling with NaN changes nothing.\<close>

definition fillna :: "'a option \<Rightarrow> 'a option list \<Rightarrow> 'a option list" where
  "fillna v xs = (case v of None \<Rightarrow> xs | Some w \<Rightarrow> map (\<lambda>x. case x of None \<Rightarrow> Some w | Some y \<Rightarrow> Some y) xs)"

section \<open>DataFrameTransform\<close>

record DataFrameTransform =
  df :: dataframe
  original_df :: dataframe
  printed :: "notice list"

definition DataFrameTransform_init :: "dataframe \<Rightarrow> DataFrameTransform" where
  "DataFrameTransform_init d = \<lparr>df = d, original_df = d, printed = []\<rparr>"

text \<open>
  \<open>sort_values('null_percentage', ascending=False)\<close>: pandas reverses the rows, sorts them
  ascending and reverses the result; rows with equal keys keep their order.
\<close>

definition sort_values_desc :: "(string \<times> nat \<times> real) list \<Rightarrow> (string \<times> nat \<times> real) list" where
  "sort_values_desc rows = rev (sort_key (\<lambda>(n, k, p). p) (rev rows))"

text \<open>
  A row of the report is (column label, null_count, null_percentage). On an empty index
  the division is by zero; every such row has null_count 0 and is filtered out.
\<close>

definition identify_missing_values ::
  "DataFrameTransform \<Rightarrow> DataFrameTransform \<times> (string \<times> nat \<times> real) list" where
  "identify_missing_values self =
     (let null_counts = map (\<lambda>(n, c). (n, null_count c)) (columns (df self));
          missing_value_df =
            map (\<lambda>(n, k). (n, k, 100 * real k / real (nrows (df self)))) null_counts
      in (self, sort_values_desc (filter (\<lambda>(n, k, p). k > 0) missing_value_df)))"

text \<open>
  \<open>self.df[column].fillna(value, inplace=True)\<close> is modelled as pandas without
  copy-on-write runs it: the fill reaches the column of the frame.

  The two branches of \<open>impute_column\<close> on the dtype of the column: the statistic of a
  numeric column, the first mode of any other column (\<open>mode()[0]\<close> raises on an empty
  result), then \<open>fillna\<close>.
\<close>

definition fill_column :: "string \<Rightarrow> column \<Rightarrow> error + column" where
  "fill_column impute_type c =
     (case c of
        NumCol xs \<Rightarrow>
          (let impute_value = (if impute_type = ''median'' then median xs else mean xs)
           in Inr (NumCol (fillna impute_value xs)))
      | ObjCol xs \<Rightarrow>
          (case mode xs of
             [] \<Rightarrow> Inl KeyError
           | impute_value # _ \<Rightarrow> Inr (ObjCol (fillna (Some impute_value) xs))))"

definition impute_column :: "string \<Rightarrow> string \<Rightarrow> DataFrameTransform \<Rightarrow> error + DataFrameTransform" where
  "impute_column column impute_type self =
     (if impute_type \<notin> set [''median'', ''mean''] then Inl ValueError
      else case getitem (df self) column of
        Inl e \<Rightarrow> Inl e
      | Inr c \<Rightarrow>
          (case fill_column impute_type c of
             Inl e \<Rightarrow> Inl e
           | Inr c' \<Rightarrow>
               Inr (self\<lparr>df := replace_column column c' (df self),
                         printed := printed self @ [Imputed column impute_type]\<rparr>)))"

text \<open>A \<open>for\<close> loop whose body may raise: the first error ends it.\<close>

fun for_each :: "('a \<Rightarrow> 's \<Rightarrow> error + 's) \<Rightarrow> 'a list \<Rightarrow> 's \<Rightarrow> error + 's" where
  "for_each body [] s = Inr s"
| "for_each body (x # xs) s = (case body x s of Inl e \<Rightarrow> Inl e | Inr s' \<Rightarrow> for_each body xs s')"

text \<open>
  The body of the loop of \<open>handle_missing_values\<close>. Column labels are unique, so
  \<open>missing_value_df.loc[column, 'null_percentage']\<close> is the percentage of the row itself.
\<close>

definition handle_missing_body ::
  "real \<Rightarrow> string \<Rightarrow> string \<times> nat \<times> real \<Rightarrow> DataFrameTransform \<Rightarrow> error + DataFrameTransform" where
  "handle_missing_body threshold_percentage method row self =
     (case row of (column, k, percentage) \<Rightarrow>
        if percentage \<le> threshold_percentage then
          (if method = ''impute'' then impute_column column ''median'' self
           else if method = ''remove'' then
             (case dropna_subset column (df self) of
                Inl e \<Rightarrow> Inl e
              | Inr d \<Rightarrow> Inr (self\<lparr>df := d\<rparr>))
           else Inr self)
        else
          (case drop_columns column (df self) of
             Inl e \<Rightarrow> Inl e
           | Inr d \<Rightarrow> Inr (self\<lparr>df := d, printed := printed self @ [Removing column percentage]\<rparr>)))"

definition handle_missing_values ::
  "real \<Rightarrow> string \<Rightarrow> DataFrameTransform \<Rightarrow> error + DataFrameTransform" where
  "handle_missing_values threshold_percentage method self =
     (case identify_missing_values self of
        (self', missing_value_df) \<Rightarrow>
          for_each (handle_missing_body threshold_percentage method) missing_value_df self')"

section \<open>DataFrameInfo\<close>

text \<open>\<open>Series.round(2)\<close>: to the nearest hundredth, a tie to the even one.\<close>

definition round_half_even :: "real \<Rightarrow> int" where
  "round_half_even x =
     (let f = \<lfloor>x\<rfloor>; d = x - of_int f
      in if d < 1 / 2 then f else if d > 1 / 2 then f + 1 else if even f then f else f + 1)"

definition round2 :: "real \<Rightarrow> real" where
  "round2 x = of_int (round_half_even (x * 100)) / 100"

text \<open>
  \<open>DataFrameInfo.get_missing_values\<close>, on the frame the object holds: a row is
  (column_name, percent_missing), in column order.
\<close>

definition get_missing_values :: "dataframe \<Rightarrow> (string \<times> real) list" where
  "get_missing_values d =
     (let percent_missing =
            map (\<lambda>(n, c). (n, round2 (real (null_count c) * 100 / real (nrows d)))) (columns d)
      in filter (\<lambda>(n, p). p > 0) percent_missing)"

section \<open>SkewTransform\<close>

record SkewTransform =
  sdf :: dataframe
  sprinted :: "notice list"

definition SkewTransform_init :: "dataframe \<Rightarrow> SkewTransform" where
  "SkewTransform_init d = \<lparr>sdf = d, sprinted = []\<rparr>"

text \<open>
  \<open>Series.skew()\<close> (pandas' \<open>nanskew\<close>) on the non-null values: the sums of the squared
  and of the cubed deviations from the mean, each replaced by 0 when below \<open>1e-14\<close> in
  absolute value (\<open>_zero_out_fperr\<close>); the result is 0 when the sum of squares is 0,
  and NaN (\<open>None\<close>) on fewer than three values.
\<close>

definition zero_out_fperr :: "real \<Rightarrow> real" where
  "zero_out_fperr arg = (if \<bar>arg\<bar> < 1 / 10 ^ 14 then 0 else arg)"

definition skew :: "real option list \<Rightarrow> real option" where
  "skew xs =
     (let ys = notnull_values xs; count = real (length ys)
      in if length ys < 3 then None
         else
           (let mu = sum_list ys / count;
                adjusted = map (\<lambda>y. y - mu) ys;
                m2 = zero_out_fperr (sum_list (map (\<lambda>a. a ^ 2) adjusted));
                m3 = zero_out_fperr (sum_list (map (\<lambda>a. a ^ 3) adjusted))
            in if m2 = 0 then Some 0
               else Some ((count * sqrt (count - 1) / (count - 2)) * (m3 / (m2 * sqrt m2)))))"

text \<open>
  The coefficient the specification names, for comparison with \<open>skew\<close>: the adjusted
  Fisher-Pearson coefficient \<open>sqrt (n (n - 1)) / (n - 2) * m3 / m2 ^ (3/2)\<close> of a sample
  of size \<open>n\<close>, where \<open>m2\<close> and \<open>m3\<close> are the second and third central moments.
\<close>

definition central_moment :: "nat \<Rightarrow> real list \<Rightarrow> real" where
  "central_moment k ys =
     sum_list (map (\<lambda>y. (y - sum_list ys / real (length ys)) ^ k) ys) / real (length ys)"

definition adjusted_fisher_pearson :: "real list \<Rightarrow> real" where
  "adjusted_fisher_pearson ys =
     (let n = real (length ys)
      in sqrt (n * (n - 1)) / (n - 2)
           * (central_moment 3 ys / (central_moment 2 ys * sqrt (central_moment 2 ys))))"

text \<open>\<open>df.select_dtypes(include=[np.number])\<close>.\<close>

definition select_dtypes_number :: "dataframe \<Rightarrow> (string \<times> real option list) list" where
  "select_dtypes_number d =
     List.map_filter (\<lambda>(n, c). case c of NumCol xs \<Rightarrow> Some (n, xs) | ObjCol xs \<Rightarrow> None) (columns d)"

text \<open>A comparison with NaN is false, so a column without a skewness is never selected.\<close>

definition identify_skewed_columns :: "real \<Rightarrow> SkewTransform \<Rightarrow> string list" where
  "identify_skewed_columns threshold self =
     (let numerical_columns = select_dtypes_number (sdf self);
          skewness = map (\<lambda>(n, xs). (n, skew xs)) numerical_columns;
          skewed_columns =
            filter (\<lambda>(n, s). case s of None \<Rightarrow> False | Some v \<Rightarrow> \<bar>v\<bar> > threshold) skewness
      in map fst skewed_columns)"

definition log1p :: "real \<Rightarrow> real" where
  "log1p x = ln (1 + x)"

definition clip_lower :: "real \<Rightarrow> real \<Rightarrow> real" where
  "clip_lower lower x = (if x < lower then lower else x)"

definition transform_log_body :: "string \<Rightarrow> SkewTransform \<Rightarrow> error + SkewTransform" where
  "transform_log_body column self =
     (case getitem (sdf self) column of
        Inl e \<Rightarrow> Inl e
      | Inr (ObjCol xs) \<Rightarrow> Inl TypeError
      | Inr (NumCol xs) \<Rightarrow>
          Inr (self\<lparr>sdf := setitem column
                               (NumCol (map (map_option (\<lambda>x. log1p (clip_lower 0 x))) xs))
                               (sdf self)\<rparr>))"

definition transform_log :: "real \<Rightarrow> SkewTransform \<Rightarrow> error + SkewTransform" where
  "transform_log threshold self =
     (let skewed_columns = identify_skewed_columns threshold self
      in for_each transform_log_body skewed_columns self)"

text \<open>
  \<open>(self.df[column] > 0).all()\<close>: a comparison with NaN is false, so a column with a
  null is not all positive.
\<close>

definition all_positive :: "real option list \<Rightarrow> bool" where
  "all_positive xs = list_all (\<lambda>x. case x of None \<Rightarrow> False | Some v \<Rightarrow> v > 0) xs"

text \<open>
  \<open>scipy.stats.boxcox\<close> is a parameter: given the values it returns the transformed
  values and the fitted parameter, or raises.
\<close>

definition transform_box_cox_body ::
  "(real list \<Rightarrow> error + real list \<times> real) \<Rightarrow> string \<Rightarrow> SkewTransform \<Rightarrow> error + SkewTransform" where
  "transform_box_cox_body boxcox column self =
     (case getitem (sdf self) column of
        Inl e \<Rightarrow> Inl e
      | Inr (ObjCol xs) \<Rightarrow> Inl TypeError
      | Inr (NumCol xs) \<Rightarrow>
          if all_positive xs then
            (case boxcox (map the xs) of
               Inl e \<Rightarrow> Inl e
             | Inr (ys, lmbda) \<Rightarrow> Inr (self\<lparr>sdf := setitem column (NumCol (map Some ys)) (sdf self)\<rparr>))
          else Inr (self\<lparr>sprinted := sprinted self @ [BoxCoxSkipped column]\<rparr>))"

definition transform_box_cox ::
  "(real list \<Rightarrow> error + real list \<times> real) \<Rightarrow> real \<Rightarrow> SkewTransform \<Rightarrow> error + SkewTransform" where
  "transform_box_cox boxcox threshold self =
     (let skewed_columns = identify_skewed_columns threshold self
      in for_each (transform_box_cox_body boxcox) skewed_columns self)"

section \<open>DataTransformation\<close>

text \<open>
  What the attribute \<open>self.df\<close> of a DataTransformation can hold: a DataFrame, or a
  method bound to one (the method's name and its receiver).
\<close>

datatype pyobject = DataFrame dataframe | BoundMethod string dataframe

record DataTransformation =
  tdf :: pyobject

text \<open>\<open>self.df = df.copy\<close>: the method is not called.\<close>

definition DataTransformation_init :: "dataframe \<Rightarrow> DataTransformation" where
  "DataTransformation_init d = \<lparr>tdf = BoundMethod ''copy'' d\<rparr>"

text \<open>\<open>obj[key]\<close> and \<open>obj[key] = value\<close>: a method is not subscriptable.\<close>

definition py_getitem :: "pyobject \<Rightarrow> string \<Rightarrow> error + column" where
  "py_getitem obj key = (case obj of DataFrame d \<Rightarrow> getitem d key | BoundMethod m r \<Rightarrow> Inl TypeError)"

definition py_setitem :: "pyobject \<Rightarrow> string \<Rightarrow> column \<Rightarrow> error + pyobject" where
  "py_setitem obj key c =
     (case obj of DataFrame d \<Rightarrow> Inr (DataFrame (setitem key c d)) | BoundMethod m r \<Rightarrow> Inl TypeError)"

definition is_space :: "char \<Rightarrow> bool" where
  "is_space ch \<longleftrightarrow> ch \<in> set [CHR '' '', CHR 0x09, CHR 0x0A, CHR 0x0B, CHR 0x0C, CHR 0x0D]"

definition strip :: "string \<Rightarrow> string" where
  "strip s = rev (dropWhile is_space (rev (dropWhile is_space s)))"

definition applymap_strip :: "dataframe \<Rightarrow> dataframe" where
  "applymap_strip d =
     d\<lparr>columns := map (\<lambda>(k, c). (k, case c of NumCol xs \<Rightarrow> NumCol xs
                                            | ObjCol xs \<Rightarrow> ObjCol (map (map_option strip) xs)))
                       (columns d)\<rparr>"

text \<open>\<open>self.df.applymap(...)\<close>: the attribute lookup comes first; a method has no \<open>applymap\<close>.\<close>

definition remove_whitespace :: "DataTransformation \<Rightarrow> error + pyobject" where
  "remove_whitespace self =
     (case tdf self of
        BoundMethod m r \<Rightarrow> Inl AttributeError
      | DataFrame d \<Rightarrow> Inr (DataFrame (applymap_strip d)))"

text \<open>
  The five column conversions share one shape,
  \<open>self.df[c] = convert(self.df[c]); return self.df\<close>, the right-hand side evaluated
  first. The pandas conversion of the column (\<open>pd.to_datetime\<close>, \<open>.str.extract(...).astype(float)\<close>,
  \<open>.astype('category')\<close>, \<open>pd.factorize(...)[0] + 1\<close>, \<open>.astype(float)\<close>) is a parameter.
\<close>

definition convert_column ::
  "(column \<Rightarrow> error + column) \<Rightarrow> string \<Rightarrow> DataTransformation \<Rightarrow> error + DataTransformation \<times> pyobject" where
  "convert_column convert column self =
     (case py_getitem (tdf self) column of
        Inl e \<Rightarrow> Inl e
      | Inr c \<Rightarrow>
          (case convert c of
             Inl e \<Rightarrow> Inl e
           | Inr c' \<Rightarrow>
               (case py_setitem (tdf self) column c' of
                  Inl e \<Rightarrow> Inl e
                | Inr obj \<Rightarrow> Inr (self\<lparr>tdf := obj\<rparr>, obj))))"

definition datetime_date_column ::
  "(column \<Rightarrow> error + column) \<Rightarrow> string \<Rightarrow> DataTransformation \<Rightarrow> error + DataTransformation \<times> pyobject" where
  "datetime_date_column to_datetime date_column self = convert_column to_datetime date_column self"

definition float_term ::
  "(column \<Rightarrow> error + column) \<Rightarrow> string \<Rightarrow> DataTransformation \<Rightarrow> error + DataTransformation \<times> pyobject" where
  "float_term extract_float term_column self = convert_column extract_float term_column self"

definition categorical_cat_column ::
  "(column \<Rightarrow> error + column) \<Rightarrow> string \<Rightarrow> DataTransformation \<Rightarrow> error + DataTransformation \<times> pyobject" where
  "categorical_cat_column astype_category cat_column self = convert_column astype_category cat_column self"

definition categorical_numerical ::
  "(column \<Rightarrow> error + column) \<Rightarrow> string \<Rightarrow> DataTransformation \<Rightarrow> error + DataTransformation \<times> pyobject" where
  "categorical_numerical factorize category_column self = convert_column factorize category_column self"

definition convert_to_float ::
  "(column \<Rightarrow> error + column) \<Rightarrow> string \<Rightarrow> DataTransformation \<Rightarrow> error + DataTransformation \<times> pyobject" where
  "convert_to_float astype_float column self = convert_column astype_float column self"

section \<open>Example frames\<close>

definition income_frame :: dataframe where
  "income_frame =
     \<lparr>nrows = 4,
      columns = [(''income'', NumCol [Some 1000, None, Some 3000, Some 4000]),
                 (''grade'', ObjCol [Some ''B'', None, Some ''A'', Some ''B''])]\<rparr>"

definition age_frame :: dataframe where
  "age_frame =
     \<lparr>nrows = 5,
      columns = [(''age'', NumCol [Some 25, Some 30, None, Some 40, Some 35])]\<rparr>"

definition empty_column_frame :: dataframe where
  "empty_column_frame =
     \<lparr>nrows = 2,
      columns = [(''a'', NumCol [None, None]), (''b'', ObjCol [None, None])]\<rparr>"

definition thirds_frame :: dataframe where
  "thirds_frame =
     \<lparr>nrows = 3,
      columns = [(''a'', NumCol [None, Some 1, Some 2]),
                 (''b'', ObjCol [None, None, Some ''x''])]\<rparr>"

definition nan_frame :: dataframe where
  "nan_frame = \<lparr>nrows = 2, columns = [(''a'', NumCol [None, None])]\<rparr>"

definition full_frame :: dataframe where
  "full_frame = \<lparr>nrows = 2, columns = [(''x'', NumCol [Some 1, Some 2])]\<rparr>"

definition skew_frame :: dataframe where
  "skew_frame =
     \<lparr>nrows = 5,
      columns = [(''x'', NumCol [Some 1, Some 1, Some 1, Some 1, Some 100]),
                 (''y'', NumCol [Some 1, Some 2, Some 3, Some 4, Some 5]),
                 (''z'', ObjCol [Some ''a'', Some ''b'', Some ''c'', Some ''d'', Some ''e''])]\<rparr>"

definition tiny_frame :: dataframe where
  "tiny_frame =
     \<lparr>nrows = 5,
      columns = [(''x'', NumCol [Some 0, Some 0, Some 0, Some 0, Some (1 / 100000)])]\<rparr>"

definition log_frame :: dataframe where
  "log_frame =
     \<lparr>nrows = 5,
      columns = [(''x'', NumCol [Some 1, Some 1, Some 1, Some 1, Some 100]),
                 (''v'', NumCol [Some (- 3), Some (- 3), Some (- 3), Some (- 3), Some 3])]\<rparr>"

definition boxcox_frame :: dataframe where
  "boxcox_frame =
     \<lparr>nrows = 5,
      columns = [(''x'', NumCol [Some 1, Some 1, Some 1, Some 1, Some 100]),
                 (''w'', NumCol [Some 0, Some 0, Some 0, Some 0, Some 5])]\<rparr>"

section \<open>Lemmas on the pandas primitives\<close>

lemma notnull_values_simps [simp]:
  "notnull_values [] = []"
  "notnull_values (None # xs) = notnull_values xs"
  "notnull_values (Some x # xs) = x # notnull_values xs"
  by (simp_all add: notnull_values_def List.map_filter_def)

lemma notnull_values_Nil_iff: "notnull_values xs = [] \<longleftrightarrow> (\<forall>x \<in> set xs. x = None)"
proof (induction xs)
  case Nil
  show ?case by simp
next
  case (Cons a xs)
  then show ?case by (cases a) auto
qed

lemma median_Some:
  assumes "notnull_values xs \<noteq> []"
  shows "\<exists>v. median xs = Some v"
proof -
  have "length (sort (notnull_values xs)) \<noteq> 0" using assms by simp
  then show ?thesis unfolding median_def Let_def by (simp only: if_False) (metis (full_types))
qed

lemma median_None: "notnull_values xs = [] \<Longrightarrow> median xs = None"
  by (simp add: median_def Let_def)

lemma mean_Some: "notnull_values xs \<noteq> [] \<Longrightarrow> \<exists>v. mean xs = Some v"
  by (simp add: mean_def Let_def)

lemma mean_None: "notnull_values xs = [] \<Longrightarrow> mean xs = None"
  by (simp add: mean_def Let_def)

lemma fold_max_ge: "(a::nat) \<le> fold max zs a"
proof (induction zs arbitrary: a)
  case Nil
  show ?case by simp
next
  case (Cons z zs)
  have "a \<le> max z a" by simp
  also have "\<dots> \<le> fold max zs (max z a)" by (rule Cons.IH)
  finally show ?case by simp
qed

lemma fold_max_upper: "(z::nat) \<in> set zs \<Longrightarrow> z \<le> fold max zs a"
proof (induction zs arbitrary: a)
  case Nil
  then show ?case by simp
next
  case (Cons w ws)
  show ?case
  proof (cases "z = w")
    case True
    have "w \<le> max w a" by simp
    also have "\<dots> \<le> fold max ws (max w a)" by (rule fold_max_ge)
    finally show ?thesis using True by simp
  next
    case False
    then show ?thesis using Cons by simp
  qed
qed

lemma fold_max_mem: "fold max zs (a::nat) = a \<or> fold max zs a \<in> set zs"
proof (induction zs arbitrary: a)
  case Nil
  then show ?case by simp
next
  case (Cons z zs)
  show ?case using Cons.IH[of "max z a"] by (auto simp: max_def split: if_splits)
qed

lemma count_list_pos: "y \<in> set ys \<Longrightarrow> count_list ys y > 0"
  by (induction ys) auto

lemma mode_nonempty:
  assumes ne: "notnull_values xs \<noteq> []"
  shows "mode xs \<noteq> []"
proof -
  define ys where "ys = notnull_values xs"
  define m where "m = fold max (map (count_list ys) ys) 0"
  obtain y where y: "y \<in> set ys" using ne by (cases ys) (auto simp: ys_def)
  have "count_list ys y \<le> m"
    unfolding m_def by (rule fold_max_upper) (use y in simp)
  then have "m > 0" using count_list_pos[OF y] by simp
  then have "m \<in> set (map (count_list ys) ys)"
    using fold_max_mem[of "map (count_list ys) ys" 0] by (simp add: m_def)
  then obtain z where z: "z \<in> set ys" "count_list ys z = m" by auto
  then have "z \<in> set (sort (remdups (filter (\<lambda>y. count_list ys y = m) ys)))"
    by simp
  then have "sort (remdups (filter (\<lambda>y. count_list ys y = m) ys)) \<noteq> []"
    by (metis empty_iff empty_set)
  then show ?thesis
    unfolding mode_def Let_def ys_def[symmetric] m_def[symmetric] .
qed

lemma mode_empty: "notnull_values xs = [] \<Longrightarrow> mode xs = []"
  by (simp add: mode_def)

lemma null_count_Num: "null_count (NumCol xs) = length (filter (\<lambda>x. x = None) xs)"
  by (simp add: null_count_def filter_map comp_def)

lemma null_count_Obj: "null_count (ObjCol xs) = length (filter (\<lambda>x. x = None) xs)"
  by (simp add: null_count_def filter_map comp_def)

lemma filter_None_fillna: "filter (\<lambda>x. x = None) (fillna (Some v) xs) = []"
  by (induction xs) (auto simp: fillna_def split: option.splits)

lemma null_count_fillna_Num: "null_count (NumCol (fillna (Some v) xs)) = 0"
  by (simp add: null_count_Num filter_None_fillna)

lemma null_count_fillna_Obj: "null_count (ObjCol (fillna (Some v) xs)) = 0"
  by (simp add: null_count_Obj filter_None_fillna)

lemma length_filter_None: "length (filter (\<lambda>x. x = None) xs) + length (notnull_values xs) = length xs"
proof (induction xs)
  case Nil
  show ?case by simp
next
  case (Cons a xs)
  then show ?case by (cases a) auto
qed

lemma all_null_iff: "length (filter (\<lambda>x. x = None) xs) = length xs \<longleftrightarrow> notnull_values xs = []"
  using length_filter_None[of xs] by auto

subsection \<open>Columns of a frame\<close>

lemma map_of_replace:
  "map_of (map (\<lambda>(k', v). if k' = k then (k', c) else (k', v)) cols) x =
     (if x = k then (case map_of cols k of None \<Rightarrow> None | Some _ \<Rightarrow> Some c) else map_of cols x)"
  by (induction cols) (auto split: option.splits)

lemma map_of_replace_column:
  "map_of (columns (replace_column k c d)) x =
     (if x = k then (case map_of (columns d) k of None \<Rightarrow> None | Some _ \<Rightarrow> Some c) else map_of (columns d) x)"
  by (simp add: replace_column_def map_of_replace)

lemma names_replace_column [simp]: "names (replace_column k c d) = names d"
  by (auto simp: replace_column_def names_def)

lemma nrows_replace_column [simp]: "nrows (replace_column k c d) = nrows d"
  by (simp add: replace_column_def)

lemma map_of_drop:
  "map_of (filter (\<lambda>(k', v). k' \<noteq> k) cols) x = (if x = k then None else map_of cols x)"
  by (induction cols) auto

lemma replace_same:
  assumes "distinct (map fst cols)" "map_of cols k = Some c"
  shows "map (\<lambda>(k', v). if k' = k then (k', c) else (k', v)) cols = cols"
proof (rule map_idI)
  fix e assume e: "e \<in> set cols"
  obtain k' v where kv: "e = (k', v)" by (cases e)
  have "map_of cols k' = Some v" using assms(1) e kv by simp
  then show "(case e of (k', v) \<Rightarrow> if k' = k then (k', c) else (k', v)) = e"
    using assms(2) kv by auto
qed

lemma replace_column_same:
  "distinct (names d) \<Longrightarrow> map_of (columns d) k = Some c \<Longrightarrow> replace_column k c d = d"
  by (simp add: replace_column_def names_def replace_same)

lemma impute_column_Inr:
  assumes "impute_column k ty s = Inr s'"
  shows "\<exists>c c'. map_of (columns (df s)) k = Some c \<and> fill_column ty c = Inr c'
           \<and> df s' = replace_column k c' (df s) \<and> original_df s' = original_df s
           \<and> printed s' = printed s @ [Imputed k ty]"
  using assms
  by (auto simp: impute_column_def getitem_def split: if_splits option.splits sum.splits)

lemma drop_columns_Inr:
  assumes "drop_columns k d = Inr d'"
  shows "k \<in> set (names d) \<and> nrows d' = nrows d
       \<and> columns d' = filter (\<lambda>(k', v). k' \<noteq> k) (columns d)"
  using assms by (auto simp: drop_columns_def split: if_splits)

lemma names_mem_iff: "k \<in> set (names d) \<longleftrightarrow> map_of (columns d) k \<noteq> None"
  by (simp add: names_def map_of_eq_None_iff)

section \<open>The loop of handle_missing_values\<close>

text \<open>The loop for a method other than remove.\<close>

lemma names_filter:
  "columns d' = filter (\<lambda>(k', v). k' \<noteq> k) (columns d) \<Longrightarrow> names d' = filter (\<lambda>k'. k' \<noteq> k) (names d)"
  by (simp add: names_def filter_map comp_def case_prod_unfold)

lemma body_cases:
  assumes "handle_missing_body t m (k, cnt, p) s = Inr s'" "m \<noteq> ''remove''"
  shows "(p \<le> t \<and> m = ''impute'' \<and> original_df s' = original_df s \<and>
           (\<exists>c c'. map_of (columns (df s)) k = Some c \<and> fill_column ''median'' c = Inr c'
                \<and> df s' = replace_column k c' (df s)))
       \<or> (p \<le> t \<and> m \<noteq> ''impute'' \<and> s' = s)
       \<or> (p > t \<and> original_df s' = original_df s \<and> k \<in> set (names (df s)) \<and> nrows (df s') = nrows (df s)
            \<and> columns (df s') = filter (\<lambda>(k', v). k' \<noteq> k) (columns (df s)))"
proof (cases "p \<le> t")
  case True
  show ?thesis
  proof (cases "m = ''impute''")
    case True
    with \<open>p \<le> t\<close> assms have "impute_column k ''median'' s = Inr s'"
      by (simp add: handle_missing_body_def)
    from impute_column_Inr[OF this] show ?thesis using True \<open>p \<le> t\<close> by blast
  next
    case False
    with \<open>p \<le> t\<close> assms show ?thesis by (simp add: handle_missing_body_def)
  qed
next
  case False
  with assms obtain d where d: "drop_columns k (df s) = Inr d"
    and s': "s' = s\<lparr>df := d, printed := printed s @ [Removing k p]\<rparr>"
    by (auto simp: handle_missing_body_def split: sum.splits)
  from drop_columns_Inr[OF d] show ?thesis using False s' by simp
qed

lemma body_not_remove:
  assumes "handle_missing_body t m (k, cnt, p) s = Inr s'" "m \<noteq> ''remove''"
  shows "nrows (df s') = nrows (df s)"
    and "original_df s' = original_df s"
    and "x \<noteq> k \<Longrightarrow> map_of (columns (df s')) x = map_of (columns (df s)) x"
    and "p > t \<Longrightarrow> map_of (columns (df s)) k \<noteq> None \<and> map_of (columns (df s')) k = None"
    and "p \<le> t \<Longrightarrow> map_of (columns (df s)) k = Some c \<Longrightarrow>
           \<exists>c'. (if m = ''impute'' then fill_column ''median'' c = Inr c' else c' = c)
            \<and> map_of (columns (df s')) k = Some c'"
    and "set (names (df s')) \<subseteq> set (names (df s))"
    and "distinct (names (df s)) \<Longrightarrow> distinct (names (df s'))"
proof -
  note C = body_cases[OF assms]
  show "nrows (df s') = nrows (df s)" using C by auto
  show "original_df s' = original_df s" using C by auto
  show "x \<noteq> k \<Longrightarrow> map_of (columns (df s')) x = map_of (columns (df s)) x"
    using C by (auto simp: map_of_replace_column map_of_drop)
  show "p > t \<Longrightarrow> map_of (columns (df s)) k \<noteq> None \<and> map_of (columns (df s')) k = None"
    using C by (auto simp: map_of_drop names_mem_iff)
  show "p \<le> t \<Longrightarrow> map_of (columns (df s)) k = Some c \<Longrightarrow>
           \<exists>c'. (if m = ''impute'' then fill_column ''median'' c = Inr c' else c' = c)
            \<and> map_of (columns (df s')) k = Some c'"
    using C by (auto simp: map_of_replace_column)
  show "set (names (df s')) \<subseteq> set (names (df s))"
    using C by (auto simp: names_filter)
  show "distinct (names (df s)) \<Longrightarrow> distinct (names (df s'))"
    using C by (auto simp: names_filter)
qed

lemma loop_not_remove:
  assumes "for_each (handle_missing_body t m) rows s = Inr s'" "m \<noteq> ''remove''"
    "distinct (map fst rows)"
  shows "nrows (df s') = nrows (df s) \<and> original_df s' = original_df s
    \<and> set (names (df s')) \<subseteq> set (names (df s))
    \<and> (distinct (names (df s)) \<longrightarrow> distinct (names (df s')))
    \<and> (\<forall>x. x \<notin> fst ` set rows \<longrightarrow> map_of (columns (df s')) x = map_of (columns (df s)) x)
    \<and> (\<forall>k cnt p. (k, cnt, p) \<in> set rows \<and> p > t \<longrightarrow>
           map_of (columns (df s)) k \<noteq> None \<and> map_of (columns (df s')) k = None)
    \<and> (\<forall>k cnt p c. (k, cnt, p) \<in> set rows \<and> p \<le> t \<and> map_of (columns (df s)) k = Some c \<longrightarrow>
           (\<exists>c'. (if m = ''impute'' then fill_column ''median'' c = Inr c' else c' = c)
             \<and> map_of (columns (df s')) k = Some c'))"
  using assms
proof (induction rows arbitrary: s)
  case Nil
  then show ?case by simp
next
  case (Cons r rows)
  obtain k cnt p where r: "r = (k, cnt, p)" by (cases r)
  from Cons.prems(1) obtain s1 where
    s1: "handle_missing_body t m (k, cnt, p) s = Inr s1" and
    rest: "for_each (handle_missing_body t m) rows s1 = Inr s'"
    by (auto simp: r split: sum.splits)
  have dist: "distinct (map fst rows)" and knot: "k \<notin> fst ` set rows"
    using Cons.prems(3) by (auto simp: r)
  note IH = Cons.IH[OF rest Cons.prems(2) dist]
  note B = body_not_remove[OF s1 Cons.prems(2)]
  have other: "\<And>x. x \<noteq> k \<Longrightarrow> map_of (columns (df s1)) x = map_of (columns (df s)) x"
    using B(3) by blast
  have keep: "map_of (columns (df s')) k = map_of (columns (df s1)) k"
    using IH knot by blast
  show ?case
  proof (intro conjI allI impI)
    show "nrows (df s') = nrows (df s)" using IH B(1) by simp
    show "original_df s' = original_df s" using IH B(2) by simp
    show "set (names (df s')) \<subseteq> set (names (df s))" using IH B(6) by blast
    show "distinct (names (df s'))" if "distinct (names (df s))" using IH B(7) that by blast
    show "map_of (columns (df s')) x = map_of (columns (df s)) x" if "x \<notin> fst ` set (r # rows)" for x
    proof -
      have "x \<noteq> k" "x \<notin> fst ` set rows" using that by (auto simp: r)
      then show ?thesis using IH other by metis
    qed
    show "map_of (columns (df s)) k' \<noteq> None" if "(k', cnt', p') \<in> set (r # rows) \<and> p' > t" for k' cnt' p'
    proof (cases "(k', cnt', p') = r")
      case True
      then show ?thesis using B(4) that by (auto simp: r)
    next
      case False
      then have mem: "(k', cnt', p') \<in> set rows" using that by simp
      then have "k' \<noteq> k" using knot by force
      moreover have "map_of (columns (df s1)) k' \<noteq> None" using IH mem that by blast
      ultimately show ?thesis using other by metis
    qed
    show "map_of (columns (df s')) k' = None" if "(k', cnt', p') \<in> set (r # rows) \<and> p' > t" for k' cnt' p'
    proof (cases "(k', cnt', p') = r")
      case True
      then show ?thesis using B(4) that keep by (auto simp: r)
    next
      case False
      then have mem: "(k', cnt', p') \<in> set rows" using that by simp
      then show ?thesis using IH that by blast
    qed
    show "\<exists>c'. (if m = ''impute'' then fill_column ''median'' c = Inr c' else c' = c)
             \<and> map_of (columns (df s')) k' = Some c'"
      if "(k', cnt', p') \<in> set (r # rows) \<and> p' \<le> t \<and> map_of (columns (df s)) k' = Some c" for k' cnt' p' c
    proof (cases "(k', cnt', p') = r")
      case True
      then have "k' = k" "p \<le> t" using that by (auto simp: r)
      then show ?thesis using B(5)[of c] keep that by auto
    next
      case False
      then have mem: "(k', cnt', p') \<in> set rows" using that by simp
      then have "k' \<noteq> k" using knot by force
      then have "map_of (columns (df s1)) k' = Some c" using other that by simp
      then show ?thesis using IH mem that by blast
    qed
  qed
qed

section \<open>DataTransformation: the stored attribute\<close>

text \<open>
  Claim C10. For every dataframe, the constructor of DataTransformation stores the bound
  method \<open>df.copy\<close>, not a copy of the data: the attribute is not a DataFrame, and each
  of the six conversion methods (remove_whitespace, datetime_date_column, float_term,
  categorical_cat_column, categorical_numerical, convert_to_float) raises, whatever the
  column and whatever the pandas conversion would do, instead of returning a frame.
\<close>

theorem DataTransformation_every_conversion_raises:
  "tdf (DataTransformation_init d) = BoundMethod ''copy'' d
   \<and> (case tdf (DataTransformation_init d) of DataFrame d' \<Rightarrow> False | BoundMethod m r \<Rightarrow> True)
   \<and> remove_whitespace (DataTransformation_init d) = Inl AttributeError
   \<and> datetime_date_column to_datetime c1 (DataTransformation_init d) = Inl TypeError
   \<and> float_term extract_float c2 (DataTransformation_init d) = Inl TypeError
   \<and> categorical_cat_column astype_category c3 (DataTransformation_init d) = Inl TypeError
   \<and> categorical_numerical factorize c4 (DataTransformation_init d) = Inl TypeError
   \<and> convert_to_float astype_float c5 (DataTransformation_init d) = Inl TypeError"
  by (simp add: DataTransformation_init_def remove_whitespace_def datetime_date_column_def
      float_term_def categorical_cat_column_def categorical_numerical_def convert_to_float_def
      convert_column_def py_getitem_def)

section \<open>impute_column\<close>

lemma null_count_le_length: "null_count c \<le> col_length c"
  by (cases c) (simp_all add: null_count_Num null_count_Obj col_length_def)

lemma has_value_Num: "null_count (NumCol xs) < col_length (NumCol xs) \<longleftrightarrow> notnull_values xs \<noteq> []"
proof -
  have "length (notnull_values xs) = 0 \<longleftrightarrow> notnull_values xs = []" by simp
  then show ?thesis
    using length_filter_None[of xs] unfolding null_count_Num col_length_def by (simp del: length_0_conv) linarith
qed

lemma has_value_Obj: "null_count (ObjCol xs) < col_length (ObjCol xs) \<longleftrightarrow> notnull_values xs \<noteq> []"
proof -
  have "length (notnull_values xs) = 0 \<longleftrightarrow> notnull_values xs = []" by simp
  then show ?thesis
    using length_filter_None[of xs] unfolding null_count_Obj col_length_def by (simp del: length_0_conv) linarith
qed

lemma length_fillna [simp]: "length (fillna v xs) = length xs"
  by (simp add: fillna_def split: option.splits)

lemma fill_column_has_value:
  assumes "null_count c < col_length c" "ty = ''median'' \<or> ty = ''mean''"
  shows "\<exists>c'. fill_column ty c = Inr c' \<and> null_count c' = 0 \<and> col_length c' = col_length c
           \<and> ((\<exists>xs v. c = NumCol xs \<and> c' = NumCol (fillna (Some v) xs))
              \<or> (\<exists>xs v. c = ObjCol xs \<and> c' = ObjCol (fillna (Some v) xs)))"
proof (cases c)
  case (NumCol xs)
  then have ne: "notnull_values xs \<noteq> []" using assms(1) has_value_Num by simp
  obtain v where v: "(if ty = ''median'' then median xs else mean xs) = Some v"
    using median_Some[OF ne] mean_Some[OF ne] by (cases "ty = ''median''") auto
  have "fill_column ty c = Inr (NumCol (fillna (Some v) xs))"
    using v by (simp add: fill_column_def NumCol)
  then show ?thesis
    using NumCol by (auto simp: null_count_fillna_Num col_length_def)
next
  case (ObjCol xs)
  then have ne: "notnull_values xs \<noteq> []" using assms(1) has_value_Obj by simp
  obtain v vs where v: "mode xs = v # vs"
    using mode_nonempty[OF ne] by (cases "mode xs") auto
  have "fill_column ty c = Inr (ObjCol (fillna (Some v) xs))"
    using v by (simp add: fill_column_def ObjCol)
  then show ?thesis
    using ObjCol by (auto simp: null_count_fillna_Obj col_length_def)
qed

lemma fill_column_all_null_Num:
  assumes "notnull_values xs = []" "ty = ''median'' \<or> ty = ''mean''"
  shows "fill_column ty (NumCol xs) = Inr (NumCol xs)"
  using assms median_None[OF assms(1)] mean_None[OF assms(1)]
  by (auto simp: fill_column_def fillna_def)

lemma fill_column_all_null_Obj:
  assumes "notnull_values xs = []"
  shows "fill_column ty (ObjCol xs) = Inl KeyError"
  using mode_empty[OF assms] by (simp add: fill_column_def)




text \<open>
  Claim C4, as amended. Imputing a column in which every value is null never fails with a
  dedicated error. On a text column the lookup \<open>mode()[0]\<close> raises KeyError and nothing is
  written; on a numeric column the statistic is NaN, the call returns normally, prints
  its notice and leaves the frame as it was, the column still all null.
\<close>

theorem impute_column_all_null:
  "distinct (names (df self)) \<and> getitem (df self) column = Inr c
     \<and> null_count c = col_length c \<and> (impute_type = ''median'' \<or> impute_type = ''mean'') \<longrightarrow>
   (case c of
      NumCol xs \<Rightarrow>
        impute_column column impute_type self
          = Inr (self\<lparr>printed := printed self @ [Imputed column impute_type]\<rparr>)
    | ObjCol xs \<Rightarrow> impute_column column impute_type self = Inl KeyError)"
proof (intro impI, elim conjE)
  assume dist: "distinct (names (df self))"
    and get: "getitem (df self) column = Inr c"
    and full: "null_count c = col_length c"
    and ty: "impute_type = ''median'' \<or> impute_type = ''mean''"
  have look: "map_of (columns (df self)) column = Some c"
    using get by (simp add: getitem_def split: option.splits)
  show "case c of
      NumCol xs \<Rightarrow>
        impute_column column impute_type self
          = Inr (self\<lparr>printed := printed self @ [Imputed column impute_type]\<rparr>)
    | ObjCol xs \<Rightarrow> impute_column column impute_type self = Inl KeyError"
  proof (cases c)
    case (NumCol xs)
    have "notnull_values xs = []"
      using full has_value_Num[of xs] by (simp add: NumCol)
    then have "fill_column impute_type c = Inr c"
      using fill_column_all_null_Num ty NumCol by simp
    moreover have "replace_column column c (df self) = df self"
      using replace_column_same[OF dist look] .
    ultimately show ?thesis
      using ty get NumCol by (auto simp: impute_column_def)
  next
    case (ObjCol xs)
    have "notnull_values xs = []"
      using full has_value_Obj[of xs] by (simp add: ObjCol)
    then have "fill_column impute_type c = Inl KeyError"
      using fill_column_all_null_Obj ObjCol by simp
    then show ?thesis
      using ty get ObjCol by (auto simp: impute_column_def)
  qed
qed

theorem impute_column_all_null_witness:
  "distinct (names (df (DataFrameTransform_init empty_column_frame)))
   \<and> getitem (df (DataFrameTransform_init empty_column_frame)) ''b'' = Inr (ObjCol [None, None])
   \<and> null_count (ObjCol [None, None]) = col_length (ObjCol [None, None])
   \<and> impute_column ''b'' ''median'' (DataFrameTransform_init empty_column_frame) = Inl KeyError"
proof -
  have dist: "distinct (names (df (DataFrameTransform_init empty_column_frame)))"
    by (simp add: names_def DataFrameTransform_init_def empty_column_frame_def)
  have get: "getitem (df (DataFrameTransform_init empty_column_frame)) ''b'' = Inr (ObjCol [None, None])"
    by (simp add: getitem_def DataFrameTransform_init_def empty_column_frame_def)
  have full: "null_count (ObjCol [None, None]) = col_length (ObjCol [None, None])"
    by (simp add: null_count_def col_length_def)
  show ?thesis
    using impute_column_all_null
      [of "DataFrameTransform_init empty_column_frame" "''b''" "ObjCol [None, None]" "''median''"]
      dist get full
    by simp
qed

text \<open>The claim as stated fails: on a numeric column the call does not fail at all.\<close>

theorem impute_column_all_null_counterexample:
  "impute_column ''a'' ''median'' (DataFrameTransform_init empty_column_frame)
     = Inr \<lparr>df = empty_column_frame, original_df = empty_column_frame,
            printed = [Imputed ''a'' ''median'']\<rparr>"
  by (simp add: impute_column_def getitem_def DataFrameTransform_init_def empty_column_frame_def
      fill_column_def median_def fillna_def replace_column_def)

section \<open>The missing-value report\<close>

lemma mset_sort_values_desc: "mset (sort_values_desc rows) = mset rows"
  by (simp add: sort_values_desc_def)

lemma set_sort_values_desc: "set (sort_values_desc rows) = set rows"
  by (simp add: sort_values_desc_def)

lemma sorted_sort_values_desc: "sorted (rev (map (\<lambda>(n, k, p). p) (sort_values_desc rows)))"
  by (simp add: sort_values_desc_def rev_map[symmetric])

lemma report_unsorted:
  "filter (\<lambda>(n, k, p). k > 0)
     (map (\<lambda>(n, k). (n, k, 100 * real k / real N)) (map (\<lambda>(n, c). (n, null_count c)) cols))
   = map (\<lambda>(n, c). (n, null_count c, 100 * real (null_count c) / real N))
       (filter (\<lambda>(n, c). null_count c > 0) cols)"
  by (induction cols) auto

lemma report_eq:
  "snd (identify_missing_values self) =
     sort_values_desc
       (map (\<lambda>(n, c). (n, null_count c, 100 * real (null_count c) / real (nrows (df self))))
          (filter (\<lambda>(n, c). null_count c > 0) (columns (df self))))"
  unfolding identify_missing_values_def Let_def snd_conv by (simp only: report_unsorted)

lemma report_set:
  "set (snd (identify_missing_values self)) =
     {(n, null_count c, 100 * real (null_count c) / real (nrows (df self))) | n c.
        (n, c) \<in> set (columns (df self)) \<and> null_count c > 0}"
  by (auto simp: report_eq set_sort_values_desc)

lemma report_names:
  "map fst (map (\<lambda>(n, c). (n, null_count c, 100 * real (null_count c) / real N)) cols) = map fst cols"
  by (induction cols) auto

lemma distinct_sort_values_desc:
  "distinct (map fst (sort_values_desc rows)) = distinct (map fst rows)"
proof -
  have "mset (map fst (sort_values_desc rows)) = mset (map fst rows)"
    by (simp add: mset_sort_values_desc)
  then show ?thesis by (metis mset_eq_imp_distinct_iff)
qed

lemma report_distinct:
  assumes "distinct (names (df self))"
  shows "distinct (map fst (snd (identify_missing_values self)))"
proof -
  have "distinct (map fst (filter (\<lambda>(n, c). null_count c > 0) (columns (df self))))"
    using assms by (simp add: names_def distinct_map_filter)
  then show ?thesis
    by (simp only: report_eq distinct_sort_values_desc report_names)
qed

text \<open>
  Claim C3, as amended. For every dataset, the report of identify_missing_values holds
  exactly one row for each column with null_count > 0, with the percentage
  100 * null_count / row_count as computed (not rounded), the rows in descending order of
  percentage; computing it leaves the object as it was.
\<close>

theorem identify_missing_values_report:
  "fst (identify_missing_values self) = self
   \<and> mset (snd (identify_missing_values self))
       = mset (map (\<lambda>(n, c). (n, null_count c, 100 * real (null_count c) / real (nrows (df self))))
                (filter (\<lambda>(n, c). null_count c > 0) (columns (df self))))
   \<and> sorted (rev (map (\<lambda>(n, k, p). p) (snd (identify_missing_values self))))"
proof (intro conjI)
  show "fst (identify_missing_values self) = self"
    by (simp add: identify_missing_values_def Let_def)
  show "mset (snd (identify_missing_values self))
       = mset (map (\<lambda>(n, c). (n, null_count c, 100 * real (null_count c) / real (nrows (df self))))
                (filter (\<lambda>(n, c). null_count c > 0) (columns (df self))))"
    by (simp only: report_eq mset_sort_values_desc)
  show "sorted (rev (map (\<lambda>(n, k, p). p) (snd (identify_missing_values self))))"
    by (simp only: report_eq sorted_sort_values_desc)
qed

text \<open>
  The claim as stated fails: the percentage of identify_missing_values is not rounded
  (one null in three rows gives 100/3, not 33.33), and the report that is rounded, the
  one of get_missing_values, is in column order, not in descending order.
\<close>

theorem identify_missing_values_rounding_counterexample:
  "snd (identify_missing_values (DataFrameTransform_init thirds_frame))
     = [(''b'', 2, 200 / 3), (''a'', 1, 100 / 3)]
   \<and> round2 (100 / 3) = 3333 / 100
   \<and> (100 / 3 :: real) \<noteq> round2 (100 / 3)
   \<and> get_missing_values thirds_frame = [(''a'', 3333 / 100), (''b'', 6667 / 100)]"
proof -
  have f1: "\<lfloor>10000 / 3 :: real\<rfloor> = 3333" by linarith
  have f2: "\<lfloor>20000 / 3 :: real\<rfloor> = 6666" by linarith
  have r1: "round2 (100 / 3) = 3333 / 100"
    by (simp add: round2_def round_half_even_def Let_def f1)
  have r2: "round2 (200 / 3) = 6667 / 100"
    by (simp add: round2_def round_half_even_def Let_def f2)
  have "snd (identify_missing_values (DataFrameTransform_init thirds_frame))
     = [(''b'', 2, 200 / 3), (''a'', 1, 100 / 3)]"
    by (simp add: identify_missing_values_def DataFrameTransform_init_def thirds_frame_def
        null_count_def sort_values_desc_def)
  moreover have "(100 / 3 :: real) \<noteq> round2 (100 / 3)"
    by (simp add: r1)
  moreover have "get_missing_values thirds_frame = [(''a'', 3333 / 100), (''b'', 6667 / 100)]"
    by (simp add: get_missing_values_def thirds_frame_def null_count_def r1 r2)
  ultimately show ?thesis using r1 by blast
qed

section \<open>handle_missing_values, methods other than remove\<close>

lemma handle_missing_values_unfold:
  "handle_missing_values t m self =
     for_each (handle_missing_body t m) (snd (identify_missing_values self)) self"
  by (simp add: handle_missing_values_def identify_missing_values_def Let_def)

lemma map_of_distinct_names:
  "distinct (names d) \<Longrightarrow> (n, c) \<in> set (columns d) \<Longrightarrow> map_of (columns d) n = Some c"
  by (simp add: names_def)

lemma report_mem_names:
  assumes "distinct (names (df self))" "(n, c) \<in> set (columns (df self))"
  shows "n \<in> fst ` set (snd (identify_missing_values self)) \<longleftrightarrow> null_count c > 0"
proof
  assume "n \<in> fst ` set (snd (identify_missing_values self))"
  then obtain c' where "(n, c') \<in> set (columns (df self))" "null_count c' > 0"
    by (auto simp: report_set)
  moreover have "c' = c"
    using map_of_distinct_names[OF assms(1) assms(2)]
      map_of_distinct_names[OF assms(1) calculation(1)] by simp
  ultimately show "null_count c > 0" by simp
next
  assume "null_count c > 0"
  then have "(n, null_count c, 100 * real (null_count c) / real (nrows (df self)))
               \<in> set (snd (identify_missing_values self))"
    using assms(2) by (auto simp: report_set)
  then show "n \<in> fst ` set (snd (identify_missing_values self))" by force
qed

lemma hmv_not_remove:
  assumes dist: "distinct (names (df self))"
    and run: "handle_missing_values t m self = Inr self'"
    and m: "m \<noteq> ''remove''"
    and mem: "(n, c) \<in> set (columns (df self))"
  shows "nrows (df self') = nrows (df self)"
    and "original_df self' = original_df self"
    and "distinct (names (df self'))"
    and "null_count c = 0 \<Longrightarrow> map_of (columns (df self')) n = Some c"
    and "null_count c > 0 \<Longrightarrow> 100 * real (null_count c) / real (nrows (df self)) > t \<Longrightarrow>
           map_of (columns (df self')) n = None"
    and "null_count c > 0 \<Longrightarrow> 100 * real (null_count c) / real (nrows (df self)) \<le> t \<Longrightarrow>
           \<exists>c'. (if m = ''impute'' then fill_column ''median'' c = Inr c' else c' = c)
                \<and> map_of (columns (df self')) n = Some c'"
proof -
  define rows where "rows = snd (identify_missing_values self)"
  have loop: "for_each (handle_missing_body t m) rows self = Inr self'"
    using run by (simp add: handle_missing_values_unfold rows_def)
  have drows: "distinct (map fst rows)"
    unfolding rows_def by (rule report_distinct[OF dist])
  note L = loop_not_remove[OF loop m drows]
  have look: "map_of (columns (df self)) n = Some c"
    by (rule map_of_distinct_names[OF dist mem])
  show "nrows (df self') = nrows (df self)" using L by blast
  show "original_df self' = original_df self" using L by blast
  show "distinct (names (df self'))" using L dist by blast
  show "map_of (columns (df self')) n = Some c" if "null_count c = 0"
  proof -
    have "n \<notin> fst ` set rows"
      using report_mem_names[OF dist mem] that by (simp add: rows_def)
    then show ?thesis using L look by metis
  qed
  have row: "(n, null_count c, 100 * real (null_count c) / real (nrows (df self))) \<in> set rows"
    if "null_count c > 0"
    using that mem by (auto simp: rows_def report_set)
  show "map_of (columns (df self')) n = None"
    if "null_count c > 0" "100 * real (null_count c) / real (nrows (df self)) > t"
    using L row[OF that(1)] that(2) by blast
  show "\<exists>c'. (if m = ''impute'' then fill_column ''median'' c = Inr c' else c' = c)
                \<and> map_of (columns (df self')) n = Some c'"
    if "null_count c > 0" "100 * real (null_count c) / real (nrows (df self)) \<le> t"
    using L row[OF that(1)] that(2) look by blast
qed

text \<open>
  Claim C1, as amended. For every well-formed dataset and every threshold t, after
  handle_missing_values with method impute completes, every column with at least one null
  whose null percentage exceeded t is absent from the result, and every imputed column
  (a null percentage of at most t) that held at least one non-null value is present and
  contains no null.
\<close>

theorem handle_missing_values_impute_result:
  "wf_df (df self) \<and> handle_missing_values t ''impute'' self = Inr self'
     \<and> (n, c) \<in> set (columns (df self)) \<and> null_count c > 0 \<longrightarrow>
   (100 * real (null_count c) / real (nrows (df self)) > t \<longrightarrow> n \<notin> set (names (df self')))
   \<and> (100 * real (null_count c) / real (nrows (df self)) \<le> t \<and> null_count c < col_length c \<longrightarrow>
        (\<exists>c'. map_of (columns (df self')) n = Some c' \<and> null_count c' = 0))"
proof (intro impI, elim conjE)
  assume wf: "wf_df (df self)"
    and run: "handle_missing_values t ''impute'' self = Inr self'"
    and mem: "(n, c) \<in> set (columns (df self))"
    and nulls: "null_count c > 0"
  have dist: "distinct (names (df self))" using wf by (simp add: wf_df_def)
  have m: "''impute'' \<noteq> ''remove''" by simp
  note H = hmv_not_remove[OF dist run m mem]
  show "(100 * real (null_count c) / real (nrows (df self)) > t \<longrightarrow> n \<notin> set (names (df self')))
   \<and> (100 * real (null_count c) / real (nrows (df self)) \<le> t \<and> null_count c < col_length c \<longrightarrow>
        (\<exists>c'. map_of (columns (df self')) n = Some c' \<and> null_count c' = 0))"
  proof (intro conjI impI)
    assume "100 * real (null_count c) / real (nrows (df self)) > t"
    then have "map_of (columns (df self')) n = None" using H(5) nulls by blast
    then show "n \<notin> set (names (df self'))" by (simp add: names_mem_iff)
  next
    assume a: "100 * real (null_count c) / real (nrows (df self)) \<le> t \<and> null_count c < col_length c"
    then obtain c' where c': "fill_column ''median'' c = Inr c'"
      "map_of (columns (df self')) n = Some c'"
      using H(6) nulls by auto
    obtain c'' where "fill_column ''median'' c = Inr c''" "null_count c'' = 0"
      using fill_column_has_value[of c "''median''"] a by blast
    then show "\<exists>c'. map_of (columns (df self')) n = Some c' \<and> null_count c' = 0"
      using c' by auto
  qed
qed


lemma hmv_income_frame:
  "handle_missing_values 30 ''impute'' (DataFrameTransform_init income_frame) =
     Inr \<lparr>df = \<lparr>nrows = 4,
                 columns = [(''income'', NumCol [Some 1000, Some 3000, Some 3000, Some 4000]),
                            (''grade'', ObjCol [Some ''B'', Some ''B'', Some ''A'', Some ''B''])]\<rparr>,
          original_df = income_frame,
          printed = [Imputed ''income'' ''median'', Imputed ''grade'' ''median'']\<rparr>"
  by (simp add: handle_missing_values_def identify_missing_values_def DataFrameTransform_init_def
      income_frame_def null_count_def sort_values_desc_def handle_missing_body_def impute_column_def
      getitem_def fill_column_def median_def mode_def fillna_def replace_column_def)

lemma hmv_age_frame:
  "handle_missing_values 10 ''impute'' (DataFrameTransform_init age_frame) =
     Inr \<lparr>df = \<lparr>nrows = 5, columns = []\<rparr>, original_df = age_frame,
          printed = [Removing ''age'' 20]\<rparr>"
  by (simp add: handle_missing_values_def identify_missing_values_def DataFrameTransform_init_def
      age_frame_def null_count_def sort_values_desc_def handle_missing_body_def drop_columns_def
      names_def)

lemma wf_income_frame: "wf_df (df (DataFrameTransform_init income_frame))"
  by (simp add: wf_df_def names_def DataFrameTransform_init_def income_frame_def col_length_def)

lemma wf_age_frame: "wf_df (df (DataFrameTransform_init age_frame))"
  by (simp add: wf_df_def names_def DataFrameTransform_init_def age_frame_def col_length_def)

theorem handle_missing_values_impute_result_witness:
  "(wf_df (df (DataFrameTransform_init age_frame))
    \<and> (''age'', NumCol [Some 25, Some 30, None, Some 40, Some 35])
         \<in> set (columns (df (DataFrameTransform_init age_frame)))
    \<and> 100 * real (null_count (NumCol [Some 25, Some 30, None, Some 40, Some 35]))
         / real (nrows (df (DataFrameTransform_init age_frame))) > 10
    \<and> ''age'' \<notin> set (names \<lparr>nrows = 5, columns = []\<rparr>))
   \<and> (wf_df (df (DataFrameTransform_init income_frame))
    \<and> (''income'', NumCol [Some 1000, None, Some 3000, Some 4000])
         \<in> set (columns (df (DataFrameTransform_init income_frame)))
    \<and> 100 * real (null_count (NumCol [Some 1000, None, Some 3000, Some 4000]))
         / real (nrows (df (DataFrameTransform_init income_frame))) \<le> 30
    \<and> (\<exists>c'. map_of [(''income'', NumCol [Some 1000, Some 3000, Some 3000, Some 4000]),
                      (''grade'', ObjCol [Some ''B'', Some ''B'', Some ''A'', Some ''B''])] ''income''
                = Some c' \<and> null_count c' = 0))"
proof -
  have a1: "(''age'', NumCol [Some 25, Some 30, None, Some 40, Some 35])
         \<in> set (columns (df (DataFrameTransform_init age_frame)))"
    by (simp add: DataFrameTransform_init_def age_frame_def)
  have a2: "null_count (NumCol [Some 25, Some 30, None, Some 40, Some 35]) = 1"
    by (simp add: null_count_def)
  have a3: "nrows (df (DataFrameTransform_init age_frame)) = 5"
    by (simp add: DataFrameTransform_init_def age_frame_def)
  have i1: "(''income'', NumCol [Some 1000, None, Some 3000, Some 4000])
         \<in> set (columns (df (DataFrameTransform_init income_frame)))"
    by (simp add: DataFrameTransform_init_def income_frame_def)
  have i2: "null_count (NumCol [Some 1000, None, Some 3000, Some 4000]) = 1"
    by (simp add: null_count_def)
  have i3: "nrows (df (DataFrameTransform_init income_frame)) = 4"
    by (simp add: DataFrameTransform_init_def income_frame_def)
  have i4: "col_length (NumCol [Some 1000, None, Some 3000, Some 4000]) = 4"
    by (simp add: col_length_def)
  let ?A = "\<lparr>df = \<lparr>nrows = 5, columns = []\<rparr>, original_df = age_frame,
              printed = [Removing ''age'' 20]\<rparr>"
  let ?I = "\<lparr>df = \<lparr>nrows = 4,
                 columns = [(''income'', NumCol [Some 1000, Some 3000, Some 3000, Some 4000]),
                            (''grade'', ObjCol [Some ''B'', Some ''B'', Some ''A'', Some ''B''])]\<rparr>,
          original_df = income_frame,
          printed = [Imputed ''income'' ''median'', Imputed ''grade'' ''median'']\<rparr>"
  have "''age'' \<notin> set (names (df ?A))"
    using handle_missing_values_impute_result
        [of "DataFrameTransform_init age_frame" 10 ?A "''age''"
            "NumCol [Some 25, Some 30, None, Some 40, Some 35]"]
      hmv_age_frame wf_age_frame a1
    by (simp add: a2 a3)
  moreover have "\<exists>c'. map_of (columns (df ?I)) ''income'' = Some c' \<and> null_count c' = 0"
    using handle_missing_values_impute_result
        [of "DataFrameTransform_init income_frame" 30 ?I "''income''"
            "NumCol [Some 1000, None, Some 3000, Some 4000]"]
      hmv_income_frame wf_income_frame i1
    by (simp add: i2 i3 i4)
  ultimately show ?thesis
    using wf_age_frame wf_income_frame a1 i1 by (simp add: a2 a3 i2 i3)
qed

text \<open>
  The claim as stated fails twice. At threshold 100 a numeric column without any value is
  imputed with NaN and keeps its nulls. At a negative threshold a column without nulls
  has a percentage (0) above the threshold and stays, since it is not in the report.
\<close>

theorem handle_missing_values_impute_counterexample:
  "handle_missing_values 100 ''impute'' (DataFrameTransform_init nan_frame)
     = Inr \<lparr>df = nan_frame, original_df = nan_frame, printed = [Imputed ''a'' ''median'']\<rparr>
   \<and> map_of (columns nan_frame) ''a'' = Some (NumCol [None, None])
   \<and> null_count (NumCol [None, None]) = 2
   \<and> handle_missing_values (- 1) ''impute'' (DataFrameTransform_init full_frame)
       = Inr (DataFrameTransform_init full_frame)
   \<and> map_of (columns full_frame) ''x'' = Some (NumCol [Some 1, Some 2])
   \<and> 100 * real (null_count (NumCol [Some 1, Some 2])) / real (nrows full_frame) > - 1"
  by (simp add: handle_missing_values_def identify_missing_values_def DataFrameTransform_init_def
      nan_frame_def full_frame_def null_count_def sort_values_desc_def handle_missing_body_def
      impute_column_def getitem_def fill_column_def median_def fillna_def replace_column_def)

text \<open>
  Claim C2, as amended. handle_missing_values takes no statistic: with method impute it
  fills the nulls of every numeric column of the report whose percentage is at most the
  threshold with the median of the column, and those of every such non-numeric column
  with its first mode. What impute_column writes into a non-numeric column does not
  depend on the statistic it is given.
\<close>

theorem handle_missing_values_imputes_median_or_mode:
  "(wf_df (df self) \<and> handle_missing_values t ''impute'' self = Inr self'
     \<and> (n, c) \<in> set (columns (df self)) \<and> null_count c > 0
     \<and> 100 * real (null_count c) / real (nrows (df self)) \<le> t \<longrightarrow>
   (case c of
      NumCol xs \<Rightarrow> map_of (columns (df self')) n = Some (NumCol (fillna (median xs) xs))
    | ObjCol xs \<Rightarrow>
        (\<exists>v vs. mode xs = v # vs
           \<and> map_of (columns (df self')) n = Some (ObjCol (fillna (Some v) xs)))))
   \<and> fill_column impute_type (ObjCol ys) = fill_column ''median'' (ObjCol ys)"
proof (intro conjI impI, elim conjE)
  show "fill_column impute_type (ObjCol ys) = fill_column ''median'' (ObjCol ys)"
    by (simp add: fill_column_def)
next
  assume wf: "wf_df (df self)"
    and run: "handle_missing_values t ''impute'' self = Inr self'"
    and mem: "(n, c) \<in> set (columns (df self))"
    and nulls: "null_count c > 0"
    and low: "100 * real (null_count c) / real (nrows (df self)) \<le> t"
  have dist: "distinct (names (df self))" using wf by (simp add: wf_df_def)
  have m: "''impute'' \<noteq> ''remove''" by simp
  obtain c' where c': "fill_column ''median'' c = Inr c'"
      "map_of (columns (df self')) n = Some c'"
    using hmv_not_remove(6)[OF dist run m mem nulls low] by auto
  show "case c of
      NumCol xs \<Rightarrow> map_of (columns (df self')) n = Some (NumCol (fillna (median xs) xs))
    | ObjCol xs \<Rightarrow>
        (\<exists>v vs. mode xs = v # vs
           \<and> map_of (columns (df self')) n = Some (ObjCol (fillna (Some v) xs)))"
    using c' by (auto simp: fill_column_def split: column.splits list.splits)
qed

theorem handle_missing_values_imputes_median_or_mode_witness:
  "wf_df (df (DataFrameTransform_init income_frame))
   \<and> (''income'', NumCol [Some 1000, None, Some 3000, Some 4000])
        \<in> set (columns (df (DataFrameTransform_init income_frame)))
   \<and> null_count (NumCol [Some 1000, None, Some 3000, Some 4000]) > 0
   \<and> 100 * real (null_count (NumCol [Some 1000, None, Some 3000, Some 4000]))
        / real (nrows (df (DataFrameTransform_init income_frame))) \<le> 30
   \<and> median [Some 1000, None, Some 3000, Some 4000] = Some 3000
   \<and> map_of [(''income'', NumCol [Some 1000, Some 3000, Some 3000, Some 4000]),
             (''grade'', ObjCol [Some ''B'', Some ''B'', Some ''A'', Some ''B''])] ''income''
       = Some (NumCol (fillna (median [Some 1000, None, Some 3000, Some 4000])
                         [Some 1000, None, Some 3000, Some 4000]))"
proof -
  have i1: "(''income'', NumCol [Some 1000, None, Some 3000, Some 4000])
         \<in> set (columns (df (DataFrameTransform_init income_frame)))"
    by (simp add: DataFrameTransform_init_def income_frame_def)
  have i2: "null_count (NumCol [Some 1000, None, Some 3000, Some 4000]) = 1"
    by (simp add: null_count_def)
  have i3: "nrows (df (DataFrameTransform_init income_frame)) = 4"
    by (simp add: DataFrameTransform_init_def income_frame_def)
  have i5: "median [Some 1000, None, Some 3000, Some 4000] = Some 3000"
    by (simp add: median_def)
  let ?I = "\<lparr>df = \<lparr>nrows = 4,
                 columns = [(''income'', NumCol [Some 1000, Some 3000, Some 3000, Some 4000]),
                            (''grade'', ObjCol [Some ''B'', Some ''B'', Some ''A'', Some ''B''])]\<rparr>,
          original_df = income_frame,
          printed = [Imputed ''income'' ''median'', Imputed ''grade'' ''median'']\<rparr>"
  have "map_of (columns (df ?I)) ''income''
       = Some (NumCol (fillna (median [Some 1000, None, Some 3000, Some 4000])
                         [Some 1000, None, Some 3000, Some 4000]))"
    using handle_missing_values_imputes_median_or_mode
        [of "DataFrameTransform_init income_frame" 30 ?I "''income''"
            "NumCol [Some 1000, None, Some 3000, Some 4000]"]
      hmv_income_frame wf_income_frame i1
    by (simp add: i2 i3)
  then show ?thesis
    using wf_income_frame i1 i5 by (simp add: i2 i3)
qed

text \<open>
  The claim as stated fails: no statistic can be requested from handle_missing_values.
  The income column is filled with its median 3000; its mean is 8000/3, the value
  impute_column writes when called with mean.
\<close>

theorem handle_missing_values_statistic_counterexample:
  "handle_missing_values 30 ''impute'' (DataFrameTransform_init income_frame) =
     Inr \<lparr>df = \<lparr>nrows = 4,
                 columns = [(''income'', NumCol [Some 1000, Some 3000, Some 3000, Some 4000]),
                            (''grade'', ObjCol [Some ''B'', Some ''B'', Some ''A'', Some ''B''])]\<rparr>,
          original_df = income_frame,
          printed = [Imputed ''income'' ''median'', Imputed ''grade'' ''median'']\<rparr>
   \<and> mean [Some 1000, None, Some 3000, Some 4000] = Some (8000 / 3)
   \<and> fill_column ''mean'' (NumCol [Some 1000, None, Some 3000, Some 4000])
       = Inr (NumCol [Some 1000, Some (8000 / 3), Some 3000, Some 4000])"
  by (simp add: handle_missing_values_def identify_missing_values_def DataFrameTransform_init_def
      income_frame_def null_count_def sort_values_desc_def handle_missing_body_def impute_column_def
      getitem_def fill_column_def median_def mean_def mode_def fillna_def replace_column_def)

section \<open>handle_missing_values, method remove\<close>

lemma filter_None_take_le:
  "length (filter (\<lambda>x. x = None) (map snd (filter fst (zip keep xs))))
     \<le> length (filter (\<lambda>x. x = None) xs)"
proof (induction xs arbitrary: keep)
  case Nil
  show ?case by simp
next
  case (Cons x xs)
  show ?case
  proof (cases keep)
    case Nil
    then show ?thesis by simp
  next
    case (Cons b bs)
    then show ?thesis using Cons.IH[of bs] by (auto intro: le_SucI)
  qed
qed

lemma null_count_take_rows_le: "null_count (take_rows keep c) \<le> null_count c"
proof (cases c)
  case (NumCol xs)
  show ?thesis
    unfolding NumCol take_rows_def column.case null_count_Num by (rule filter_None_take_le)
next
  case (ObjCol xs)
  show ?thesis
    unfolding ObjCol take_rows_def column.case null_count_Obj by (rule filter_None_take_le)
qed

lemma filter_None_take_self:
  "filter (\<lambda>x. x = None) (map snd (filter fst (zip (map Not (map (\<lambda>x. x = None) xs)) xs))) = []"
  by (induction xs) auto

lemma null_count_take_rows_self: "null_count (take_rows (map Not (isnull c)) c) = 0"
proof (cases c)
  case (NumCol xs)
  show ?thesis
    unfolding NumCol take_rows_def column.case null_count_Num isnull.simps
    by (simp only: filter_None_take_self list.size)
next
  case (ObjCol xs)
  show ?thesis
    unfolding ObjCol take_rows_def column.case null_count_Obj isnull.simps
    by (simp only: filter_None_take_self list.size)
qed

lemma dropna_subset_Inr:
  assumes "dropna_subset k d = Inr d'"
  shows "\<exists>ck. map_of (columns d) k = Some ck
           \<and> columns d' = map (\<lambda>(k', v). (k', take_rows (map Not (isnull ck)) v)) (columns d)
           \<and> nrows d' = length (filter (\<lambda>b. b) (map Not (isnull ck)))"
  using assms by (auto simp: dropna_subset_def Let_def split: option.splits)

lemma names_take_rows:
  "columns d' = map (\<lambda>(k', v). (k', f v)) (columns d) \<Longrightarrow> names d' = names d"
  by (simp add: names_def case_prod_unfold comp_def)

lemma body_remove:
  assumes run: "handle_missing_body t ''remove'' (k, cnt, p) s = Inr s'"
    and dist: "distinct (names (df s))"
  shows "distinct (names (df s'))"
    and "original_df s' = original_df s"
    and "(n, c') \<in> set (columns (df s')) \<Longrightarrow> null_count c' > 0 \<Longrightarrow>
           n \<noteq> k \<and> (\<exists>c. (n, c) \<in> set (columns (df s)) \<and> null_count c > 0)"
proof -
  have m: "''remove'' \<noteq> ''impute''" by simp
  consider (low) d where "p \<le> t" "dropna_subset k (df s) = Inr d" "s' = s\<lparr>df := d\<rparr>"
    | (high) d where "\<not> p \<le> t" "drop_columns k (df s) = Inr d"
        "s' = s\<lparr>df := d, printed := printed s @ [Removing k p]\<rparr>"
    using run by (auto simp: handle_missing_body_def split: if_splits sum.splits)
  then have "distinct (names (df s')) \<and> original_df s' = original_df s
      \<and> ((n, c') \<in> set (columns (df s')) \<longrightarrow> null_count c' > 0 \<longrightarrow>
           n \<noteq> k \<and> (\<exists>c. (n, c) \<in> set (columns (df s)) \<and> null_count c > 0))"
  proof cases
    case low
    from dropna_subset_Inr[OF low(2)] obtain ck where
      ck: "map_of (columns (df s)) k = Some ck"
        "columns d = map (\<lambda>(k', v). (k', take_rows (map Not (isnull ck)) v)) (columns (df s))"
      by blast
    have nm: "names d = names (df s)" using names_take_rows[OF ck(2)] .
    have "n \<noteq> k \<and> (\<exists>c. (n, c) \<in> set (columns (df s)) \<and> null_count c > 0)"
      if mem: "(n, c') \<in> set (columns d)" and pos: "null_count c' > 0"
    proof -
      from mem ck(2) obtain c where c: "(n, c) \<in> set (columns (df s))"
        "c' = take_rows (map Not (isnull ck)) c" by auto
      have "null_count c > 0"
        using pos null_count_take_rows_le[of "map Not (isnull ck)" c] c(2) by simp
      moreover have "n \<noteq> k"
      proof
        assume "n = k"
        then have "map_of (columns (df s)) k = Some c"
          using dist c(1) by (simp add: names_def)
        then have "c = ck" using ck(1) by simp
        then show False using pos c(2) null_count_take_rows_self[of ck] by simp
      qed
      ultimately show ?thesis using c(1) by blast
    qed
    then show ?thesis using low(3) nm dist by simp
  next
    case high
    from drop_columns_Inr[OF high(2)] have
      cols: "columns d = filter (\<lambda>(k', v). k' \<noteq> k) (columns (df s))" by simp
    have "distinct (names d)" using dist by (simp add: names_filter[OF cols])
    moreover have "n \<noteq> k \<and> (\<exists>c. (n, c) \<in> set (columns (df s)) \<and> null_count c > 0)"
      if "(n, c') \<in> set (columns d)" "null_count c' > 0"
      using that cols by auto
    ultimately show ?thesis using high(3) by simp
  qed
  then show "distinct (names (df s'))" and "original_df s' = original_df s"
    and "(n, c') \<in> set (columns (df s')) \<Longrightarrow> null_count c' > 0 \<Longrightarrow>
           n \<noteq> k \<and> (\<exists>c. (n, c) \<in> set (columns (df s)) \<and> null_count c > 0)"
    by blast+
qed

lemma loop_remove:
  assumes "for_each (handle_missing_body t ''remove'') rows s = Inr s'"
    and "distinct (names (df s))"
  shows "distinct (names (df s')) \<and> original_df s' = original_df s
    \<and> (\<forall>n c'. (n, c') \<in> set (columns (df s')) \<and> null_count c' > 0 \<longrightarrow>
          n \<notin> fst ` set rows \<and> (\<exists>c. (n, c) \<in> set (columns (df s)) \<and> null_count c > 0))"
  using assms
proof (induction rows arbitrary: s)
  case Nil
  then show ?case by auto
next
  case (Cons r rows)
  obtain k cnt p where r: "r = (k, cnt, p)" by (cases r)
  from Cons.prems(1) obtain s1 where
    s1: "handle_missing_body t ''remove'' (k, cnt, p) s = Inr s1" and
    rest: "for_each (handle_missing_body t ''remove'') rows s1 = Inr s'"
    by (auto simp: r split: sum.splits)
  note B = body_remove[OF s1 Cons.prems(2)]
  note IH = Cons.IH[OF rest B(1)]
  show ?case
  proof (intro conjI allI impI)
    show "distinct (names (df s'))" using IH by blast
    show "original_df s' = original_df s" using IH B(2) by simp
  next
    fix n c' assume a: "(n, c') \<in> set (columns (df s')) \<and> null_count c' > 0"
    then obtain c1 where c1: "n \<notin> fst ` set rows" "(n, c1) \<in> set (columns (df s1))" "null_count c1 > 0"
      using IH by blast
    from B(3)[OF c1(2) c1(3)] have "n \<noteq> k" "\<exists>c. (n, c) \<in> set (columns (df s)) \<and> null_count c > 0"
      by blast+
    then show "n \<notin> fst ` set (r # rows)" "\<exists>c. (n, c) \<in> set (columns (df s)) \<and> null_count c > 0"
      using c1(1) by (auto simp: r)
  qed
qed

lemma report_empty:
  assumes "\<forall>(n, c) \<in> set (columns (df self)). null_count c = 0"
  shows "snd (identify_missing_values self) = []"
proof -
  have "filter (\<lambda>(n, c). null_count c > 0) (columns (df self)) = []"
    using assms by (auto simp: filter_empty_conv)
  then show ?thesis by (simp add: report_eq sort_values_desc_def)
qed

lemma hmv_remove_no_nulls:
  assumes dist: "distinct (names (df self))"
    and run: "handle_missing_values t ''remove'' self = Inr self'"
  shows "\<forall>(n, c) \<in> set (columns (df self')). null_count c = 0"
proof -
  have loop: "for_each (handle_missing_body t ''remove'') (snd (identify_missing_values self)) self = Inr self'"
    using run by (simp add: handle_missing_values_unfold)
  note L = loop_remove[OF loop dist]
  show ?thesis
  proof (clarify, rule ccontr)
    fix n c' assume mem: "(n, c') \<in> set (columns (df self'))" and "null_count c' \<noteq> 0"
    then have pos: "null_count c' > 0" by simp
    from L mem pos obtain c where
      c: "n \<notin> fst ` set (snd (identify_missing_values self))"
         "(n, c) \<in> set (columns (df self))" "null_count c > 0" by blast
    then show False using report_mem_names[OF dist c(2)] by simp
  qed
qed

section \<open>A second run of handle_missing_values\<close>

lemma for_each_df_fixed:
  assumes "\<And>r s. r \<in> set rows \<Longrightarrow> df s = d \<Longrightarrow>
             \<exists>s'. body r s = Inr s' \<and> df s' = d \<and> original_df s' = original_df s"
    and "df s = d"
  shows "\<exists>s'. for_each body rows s = Inr s' \<and> df s' = d \<and> original_df s' = original_df s"
  using assms
proof (induction rows arbitrary: s)
  case Nil
  then show ?case by simp
next
  case (Cons r rows)
  obtain s1 where s1: "body r s = Inr s1" "df s1 = d" "original_df s1 = original_df s"
    using Cons.prems(1)[of r s] Cons.prems(2) by auto
  have "\<exists>s'. for_each body rows s1 = Inr s' \<and> df s' = d \<and> original_df s' = original_df s1"
    by (rule Cons.IH) (use Cons.prems(1) s1(2) in auto)
  then show ?case using s1 by auto
qed

lemma hmv_settled:
  assumes dist: "distinct (names (df self))"
    and settled: "\<And>n c. (n, c) \<in> set (columns (df self)) \<Longrightarrow> null_count c > 0 \<Longrightarrow>
        100 * real (null_count c) / real (nrows (df self)) \<le> t \<and> m \<noteq> ''remove''
        \<and> (m = ''impute'' \<longrightarrow> fill_column ''median'' c = Inr c)"
  shows "\<exists>self'. handle_missing_values t m self = Inr self' \<and> df self' = df self
           \<and> original_df self' = original_df self"
proof -
  define d where "d = df self"
  have step: "\<exists>s'. handle_missing_body t m r s = Inr s' \<and> df s' = d \<and> original_df s' = original_df s"
    if r: "r \<in> set (snd (identify_missing_values self))" and s: "df s = d" for r s
  proof -
    from r obtain n c where rc: "r = (n, null_count c, 100 * real (null_count c) / real (nrows (df self)))"
      "(n, c) \<in> set (columns (df self))" "null_count c > 0"
      by (auto simp: report_set)
    note S = settled[OF rc(2) rc(3)]
    have look: "map_of (columns d) n = Some c"
      using map_of_distinct_names[OF dist rc(2)] by (simp add: d_def)
    show ?thesis
    proof (cases "m = ''impute''")
      case True
      have "replace_column n c d = d"
        using replace_column_same[of d n c] dist look by (simp add: d_def)
      then show ?thesis
        using S True look s
        by (simp add: rc(1) handle_missing_body_def impute_column_def getitem_def)
    next
      case False
      then show ?thesis using S s by (simp add: rc(1) handle_missing_body_def)
    qed
  qed
  show ?thesis
    unfolding handle_missing_values_unfold d_def[symmetric]
    by (rule for_each_df_fixed[OF step]) (simp_all add: d_def)
qed


lemma hmv_not_remove_settled:
  assumes dist: "distinct (names (df self))"
    and run: "handle_missing_values t m self = Inr self'"
    and m: "m \<noteq> ''remove''"
    and mem: "(n, c1) \<in> set (columns (df self'))"
    and pos: "null_count c1 > 0"
  shows "100 * real (null_count c1) / real (nrows (df self')) \<le> t
       \<and> (m = ''impute'' \<longrightarrow> fill_column ''median'' c1 = Inr c1)"
proof -
  have loop: "for_each (handle_missing_body t m) (snd (identify_missing_values self)) self = Inr self'"
    using run by (simp add: handle_missing_values_unfold)
  note L = loop_not_remove[OF loop m report_distinct[OF dist]]
  have dist': "distinct (names (df self'))" using L dist by blast
  have look': "map_of (columns (df self')) n = Some c1"
    by (rule map_of_distinct_names[OF dist' mem])
  have "n \<in> set (names (df self'))" using mem by (force simp: names_def)
  then have "n \<in> set (names (df self))" using L by blast
  then obtain c where c: "(n, c) \<in> set (columns (df self))" by (auto simp: names_def)
  note H = hmv_not_remove[OF dist run m c]
  have nrows: "nrows (df self') = nrows (df self)" by (rule H(1))
  show ?thesis
  proof (cases "null_count c = 0")
    case True
    then show ?thesis using H(4) look' pos by simp
  next
    case False
    then have cpos: "null_count c > 0" by simp
    show ?thesis
    proof (cases "100 * real (null_count c) / real (nrows (df self)) \<le> t")
      case False
      then show ?thesis using H(5)[OF cpos] look' by simp
    next
      case True
      from H(6)[OF cpos True] look' have
        c1: "if m = ''impute'' then fill_column ''median'' c = Inr c1 else c1 = c" by simp
      show ?thesis
      proof (cases "m = ''impute''")
        case False
        then show ?thesis using c1 True nrows by simp
      next
        case imp: True
        then have f: "fill_column ''median'' c = Inr c1" using c1 by simp
        have "\<not> null_count c < col_length c"
        proof
          assume "null_count c < col_length c"
          then obtain c' where "fill_column ''median'' c = Inr c'" "null_count c' = 0"
            using fill_column_has_value[of c "''median''"] by blast
          then show False using f pos by simp
        qed
        then have full: "null_count c = col_length c"
          using null_count_le_length[of c] by simp
        have "c1 = c"
        proof (cases c)
          case (NumCol xs)
          then have "notnull_values xs = []" using full has_value_Num[of xs] by simp
          then show ?thesis using fill_column_all_null_Num[of xs "''median''"] f NumCol by simp
        next
          case (ObjCol xs)
          then have "notnull_values xs = []" using full has_value_Obj[of xs] by simp
          then show ?thesis using fill_column_all_null_Obj[of xs "''median''"] f ObjCol by simp
        qed
        then show ?thesis using f True nrows by simp
      qed
    qed
  qed
qed

subsection \<open>Well-formedness is kept\<close>

lemma length_isnull [simp]: "length (isnull c) = col_length c"
  by (cases c) (simp_all add: col_length_def)

lemma length_take: "length keep = length xs \<Longrightarrow>
    length (filter fst (zip keep xs)) = length (filter (\<lambda>b. b) keep)"
proof (induction xs arbitrary: keep)
  case Nil
  then show ?case by simp
next
  case (Cons x xs)
  then obtain b bs where "keep = b # bs" "length bs = length xs" by (cases keep) auto
  then show ?case using Cons.IH[of bs] by simp
qed

lemma col_length_take_rows:
  "length keep = col_length c \<Longrightarrow> col_length (take_rows keep c) = length (filter (\<lambda>b. b) keep)"
  by (cases c) (simp_all add: take_rows_def col_length_def length_take)

lemma col_length_fill_column: "fill_column ty c = Inr c' \<Longrightarrow> col_length c' = col_length c"
  by (auto simp: fill_column_def col_length_def Let_def split: column.splits list.splits)

lemma wf_replace_column:
  assumes "wf_df d" "map_of (columns d) k = Some c" "col_length c' = col_length c"
  shows "wf_df (replace_column k c' d)"
proof -
  have "(k, c) \<in> set (columns d)" using assms(2) by (rule map_of_SomeD)
  then have "col_length c' = nrows d" using assms(1,3) by (auto simp: wf_df_def)
  then show ?thesis
    using assms(1) unfolding wf_df_def names_replace_column nrows_replace_column
    by (auto simp: replace_column_def)
qed

lemma body_wf:
  assumes run: "handle_missing_body t m r s = Inr s'" and wf: "wf_df (df s)"
  shows "wf_df (df s')"
proof -
  obtain k cnt p where r: "r = (k, cnt, p)" by (cases r)
  show ?thesis
  proof (cases "m = ''remove'' \<and> p \<le> t")
    case False
    show ?thesis
    proof (cases "m = ''remove''")
      case True
      then have "\<not> p \<le> t" using False by simp
      then obtain d where d: "drop_columns k (df s) = Inr d" "df s' = d"
        using run by (auto simp: r handle_missing_body_def split: sum.splits)
      from drop_columns_Inr[OF d(1)] have
        "nrows d = nrows (df s)" "columns d = filter (\<lambda>(k', v). k' \<noteq> k) (columns (df s))" by simp_all
      then show ?thesis using wf d(2) by (auto simp: wf_df_def names_filter)
    next
      case nr: False
      from body_cases[OF run[unfolded r] nr] show ?thesis
      proof (elim disjE conjE exE)
        fix c c' assume "map_of (columns (df s)) k = Some c" "fill_column ''median'' c = Inr c'"
          "df s' = replace_column k c' (df s)"
        then show ?thesis using wf_replace_column[OF wf] col_length_fill_column by metis
      next
        assume "s' = s" then show ?thesis using wf by simp
      next
        assume "nrows (df s') = nrows (df s)"
          "columns (df s') = filter (\<lambda>(k', v). k' \<noteq> k) (columns (df s))"
        then show ?thesis using wf by (auto simp: wf_df_def names_filter)
      qed
    qed
  next
    case True
    then obtain d where d: "dropna_subset k (df s) = Inr d" "df s' = d"
      using run by (auto simp: r handle_missing_body_def split: sum.splits)
    from dropna_subset_Inr[OF d(1)] obtain ck where
      ck: "map_of (columns (df s)) k = Some ck"
        "columns d = map (\<lambda>(k', v). (k', take_rows (map Not (isnull ck)) v)) (columns (df s))"
        "nrows d = length (filter (\<lambda>b. b) (map Not (isnull ck)))"
      by blast
    have "(k, ck) \<in> set (columns (df s))" using ck(1) by (rule map_of_SomeD)
    then have len: "col_length ck = nrows (df s)" using wf by (auto simp: wf_df_def)
    have "col_length (snd e) = nrows d" if "e \<in> set (columns d)" for e
    proof -
      from that ck(2) obtain n c where c: "(n, c) \<in> set (columns (df s))"
        "e = (n, take_rows (map Not (isnull ck)) c)" by auto
      have "col_length c = nrows (df s)" using wf c(1) by (auto simp: wf_df_def)
      then show ?thesis
        using col_length_take_rows[of "map Not (isnull ck)" c] len ck(3) c(2) by simp
    qed
    moreover have "distinct (names d)"
      using names_take_rows[OF ck(2)] wf by (simp add: wf_df_def)
    ultimately show ?thesis using d(2) by (simp add: wf_df_def)
  qed
qed

lemma loop_wf:
  "for_each (handle_missing_body t m) rows s = Inr s' \<Longrightarrow> wf_df (df s) \<Longrightarrow> wf_df (df s')"
proof (induction rows arbitrary: s)
  case Nil
  then show ?case by simp
next
  case (Cons r rows)
  then obtain s1 where "handle_missing_body t m r s = Inr s1"
    "for_each (handle_missing_body t m) rows s1 = Inr s'"
    by (auto split: sum.splits)
  then show ?case using Cons.IH body_wf Cons.prems(2) by blast
qed

lemma hmv_wf: "handle_missing_values t m self = Inr self' \<Longrightarrow> wf_df (df self) \<Longrightarrow> wf_df (df self')"
  unfolding handle_missing_values_unfold by (rule loop_wf)

text \<open>
  Claim C8. For every well-formed dataset, every threshold and every method, when
  handle_missing_values has returned, running it again on its own output returns and
  leaves the dataset exactly as the first run left it. The output of the first run is
  itself well-formed.
\<close>

theorem handle_missing_values_idempotent:
  "wf_df (df self) \<and> handle_missing_values t m self = Inr self1 \<longrightarrow>
   wf_df (df self1)
   \<and> (\<exists>self2. handle_missing_values t m self1 = Inr self2 \<and> df self2 = df self1
         \<and> original_df self2 = original_df self1)"
proof (intro impI conjI, goal_cases)
  case 1
  then show ?case using hmv_wf by blast
next
  case 2
  then have wf: "wf_df (df self)" and run: "handle_missing_values t m self = Inr self1"
    by blast+
  have dist: "distinct (names (df self))" using wf by (simp add: wf_df_def)
  show ?case
  proof (cases "m = ''remove''")
    case True
    have "\<forall>(n, c) \<in> set (columns (df self1)). null_count c = 0"
      using hmv_remove_no_nulls[OF dist] run True by simp
    then have "snd (identify_missing_values self1) = []" by (rule report_empty)
    then have "handle_missing_values t m self1 = Inr self1"
      by (simp add: handle_missing_values_unfold)
    then show ?thesis by simp
  next
    case False
    have loop: "for_each (handle_missing_body t m) (snd (identify_missing_values self)) self = Inr self1"
      using run by (simp add: handle_missing_values_unfold)
    have dist1: "distinct (names (df self1))"
      using loop_not_remove[OF loop False report_distinct[OF dist]] dist by blast
    show ?thesis
    proof (rule hmv_settled[OF dist1])
      fix n c assume "(n, c) \<in> set (columns (df self1))" "null_count c > 0"
      then show "100 * real (null_count c) / real (nrows (df self1)) \<le> t \<and> m \<noteq> ''remove''
        \<and> (m = ''impute'' \<longrightarrow> fill_column ''median'' c = Inr c)"
        using hmv_not_remove_settled[OF dist run False] False by blast
    qed
  qed
qed

theorem handle_missing_values_idempotent_witness:
  "wf_df (df (DataFrameTransform_init income_frame))
   \<and> handle_missing_values 30 ''impute'' (DataFrameTransform_init income_frame) =
       Inr \<lparr>df = \<lparr>nrows = 4,
                 columns = [(''income'', NumCol [Some 1000, Some 3000, Some 3000, Some 4000]),
                            (''grade'', ObjCol [Some ''B'', Some ''B'', Some ''A'', Some ''B''])]\<rparr>,
          original_df = income_frame,
          printed = [Imputed ''income'' ''median'', Imputed ''grade'' ''median'']\<rparr>
   \<and> (\<exists>self2. handle_missing_values 30 ''impute''
         \<lparr>df = \<lparr>nrows = 4,
                 columns = [(''income'', NumCol [Some 1000, Some 3000, Some 3000, Some 4000]),
                            (''grade'', ObjCol [Some ''B'', Some ''B'', Some ''A'', Some ''B''])]\<rparr>,
          original_df = income_frame,
          printed = [Imputed ''income'' ''median'', Imputed ''grade'' ''median'']\<rparr> = Inr self2
        \<and> df self2 = \<lparr>nrows = 4,
                 columns = [(''income'', NumCol [Some 1000, Some 3000, Some 3000, Some 4000]),
                            (''grade'', ObjCol [Some ''B'', Some ''B'', Some ''A'', Some ''B''])]\<rparr>)"
proof -
  let ?I = "\<lparr>df = \<lparr>nrows = 4,
                 columns = [(''income'', NumCol [Some 1000, Some 3000, Some 3000, Some 4000]),
                            (''grade'', ObjCol [Some ''B'', Some ''B'', Some ''A'', Some ''B''])]\<rparr>,
          original_df = income_frame,
          printed = [Imputed ''income'' ''median'', Imputed ''grade'' ''median'']\<rparr>"
  have "\<exists>self2. handle_missing_values 30 ''impute'' ?I = Inr self2 \<and> df self2 = df ?I
       \<and> original_df self2 = original_df ?I"
    using handle_missing_values_idempotent[of "DataFrameTransform_init income_frame" 30 "''impute''" ?I]
      wf_income_frame hmv_income_frame by blast
  then show ?thesis using wf_income_frame hmv_income_frame by auto
qed

section \<open>identify_skewed_columns\<close>

lemma sqrt4: "sqrt 4 = 2"
  using real_sqrt_abs[of 2] by simp

lemma skew_x: "skew [Some 1, Some 1, Some 1, Some 1, Some 100] = Some (198 / sqrt (39204 / 5))"
  by (simp add: skew_def zero_out_fperr_def Let_def power2_eq_square power3_eq_cube sqrt4 field_simps)

lemma skew_y: "skew [Some 1, Some 2, Some 3, Some 4, Some 5] = Some 0"
  by (simp add: skew_def zero_out_fperr_def Let_def power2_eq_square power3_eq_cube)

lemma skew_tiny: "skew [Some 0, Some 0, Some 0, Some 0, Some (1 / 100000)] = Some 0"
  by (simp add: skew_def zero_out_fperr_def Let_def power2_eq_square power3_eq_cube)

lemma sqrt_bound: "sqrt (39204 / 5) < 99"
proof -
  have "sqrt (39204 / 5) < sqrt (99\<^sup>2)"
    by (subst real_sqrt_less_iff) (simp add: power2_eq_square)
  then show ?thesis by simp
qed

lemma skew_x_gt: "\<bar>198 / sqrt (39204 / 5)\<bar> > (2::real)"
proof -
  have pos: "sqrt (39204 / 5) > 0" by simp
  have "2 * sqrt (39204 / 5) < 198" using sqrt_bound by simp
  then have "2 < 198 / sqrt (39204 / 5)" using pos by (simp add: pos_less_divide_eq)
  then show ?thesis by simp
qed

lemma identify_skewed_skew_frame: "identify_skewed_columns 2 (SkewTransform_init skew_frame) = [''x'']"
  using skew_x_gt
  by (simp add: identify_skewed_columns_def SkewTransform_init_def skew_frame_def
      select_dtypes_number_def List.map_filter_def skew_x skew_y)

lemma identify_skewed_tiny_frame: "identify_skewed_columns 2 (SkewTransform_init tiny_frame) = []"
  by (simp add: identify_skewed_columns_def SkewTransform_init_def tiny_frame_def
      select_dtypes_number_def List.map_filter_def skew_tiny)

lemma fisher_pearson_tiny:
  "adjusted_fisher_pearson [0, 0, 0, 0, 1 / 100000] = sqrt 20 / 2"
proof -
  have m2: "central_moment 2 [0, 0, 0, 0, 1 / 100000] = (1 / 250000)\<^sup>2"
    by (simp add: central_moment_def power2_eq_square)
  have m3: "central_moment 3 [0, 0, 0, 0, 1 / 100000] = 12 / 125 * (1 / 100000) ^ 3"
    by (simp add: central_moment_def power3_eq_cube)
  have s: "sqrt ((1 / 250000)\<^sup>2) = 1 / (250000::real)"
    by (subst real_sqrt_abs) simp
  show ?thesis
    unfolding adjusted_fisher_pearson_def Let_def m2 m3 s
    by (simp add: power2_eq_square power3_eq_cube)
qed

lemma fisher_pearson_tiny_gt: "\<bar>adjusted_fisher_pearson [0, 0, 0, 0, 1 / 100000]\<bar> > 2"
proof -
  have "sqrt (4\<^sup>2) < sqrt 20"
    by (subst real_sqrt_less_iff) (simp add: power2_eq_square)
  then have "4 < sqrt 20" by simp
  then show ?thesis by (simp add: fisher_pearson_tiny)
qed

text \<open>Away from the cut-off, the skewness pandas computes is the coefficient of the specification.\<close>

lemma skew_eq_fisher_pearson:
  assumes len: "3 \<le> length (notnull_values xs)"
    and big2: "1 / 10 ^ 14 \<le> \<bar>real (length (notnull_values xs)) * central_moment 2 (notnull_values xs)\<bar>"
    and big3: "1 / 10 ^ 14 \<le> \<bar>real (length (notnull_values xs)) * central_moment 3 (notnull_values xs)\<bar>"
  shows "skew xs = Some (adjusted_fisher_pearson (notnull_values xs))"
proof -
  define ys where "ys = notnull_values xs"
  define n where "n = real (length ys)"
  define mu where "mu = sum_list ys / n"
  define S2 where "S2 = sum_list (map (\<lambda>a. a ^ 2) (map (\<lambda>y. y - mu) ys))"
  define S3 where "S3 = sum_list (map (\<lambda>a. a ^ 3) (map (\<lambda>y. y - mu) ys))"
  have "0 < length ys" using len unfolding ys_def by linarith
  then have npos: "n > 0" by (simp only: n_def of_nat_0_less_iff)
  have c2: "central_moment 2 ys = S2 / n"
    by (simp add: central_moment_def S2_def mu_def n_def comp_def)
  have c3: "central_moment 3 ys = S3 / n"
    by (simp add: central_moment_def S3_def mu_def n_def comp_def)
  have b2: "1 / 10 ^ 14 \<le> \<bar>S2\<bar>" using big2 npos by (simp add: c2 ys_def[symmetric] n_def[symmetric])
  have b3: "1 / 10 ^ 14 \<le> \<bar>S3\<bar>" using big3 npos by (simp add: c3 ys_def[symmetric] n_def[symmetric])
  have z2: "zero_out_fperr S2 = S2" using b2 by (simp add: zero_out_fperr_def)
  have z3: "zero_out_fperr S3 = S3" using b3 by (simp add: zero_out_fperr_def)
  have S2nn: "S2 \<ge> 0" unfolding S2_def by (rule sum_list_nonneg) auto
  have S2pos: "S2 > 0" using b2 S2nn by simp
  have sk: "skew xs = Some ((n * sqrt (n - 1) / (n - 2)) * (S3 / (S2 * sqrt S2)))"
  proof -
    have l3: "\<not> length ys < 3" using len unfolding ys_def by linarith
    have ne: "S2 \<noteq> 0" using S2pos by simp
    show ?thesis
      unfolding skew_def Let_def ys_def[symmetric] n_def[symmetric] mu_def[symmetric]
        S2_def[symmetric] S3_def[symmetric] z2 z3
      by (simp only: l3 ne if_False)
  qed
  have a: "sqrt (n * (n - 1)) = sqrt n * sqrt (n - 1)" by (rule real_sqrt_mult)
  have b: "sqrt (S2 / n) = sqrt S2 / sqrt n" by (rule real_sqrt_divide)
  have nn: "sqrt n * sqrt n = n" using npos by simp
  have sn: "sqrt n > 0" using npos by simp
  have s2: "sqrt S2 > 0" using S2pos by simp
  have inner: "(S3 / n) / ((S2 / n) * (sqrt S2 / sqrt n)) = sqrt n * (S3 / (S2 * sqrt S2))"
    using npos sn s2 S2pos by (simp add: field_simps)
  have "adjusted_fisher_pearson ys
      = sqrt n * sqrt (n - 1) / (n - 2) * (sqrt n * (S3 / (S2 * sqrt S2)))"
    by (simp only: adjusted_fisher_pearson_def Let_def n_def[symmetric] c2 c3 a b inner)
  also have "\<dots> = (sqrt n * sqrt n) * sqrt (n - 1) / (n - 2) * (S3 / (S2 * sqrt S2))"
    by (simp add: mult_ac)
  finally have "adjusted_fisher_pearson ys = (n * sqrt (n - 1) / (n - 2)) * (S3 / (S2 * sqrt S2))"
    by (simp only: nn)
  then show ?thesis using sk by (simp add: ys_def)
qed

lemma identify_skewed_columns_filter:
  "identify_skewed_columns t self =
     map fst (filter (\<lambda>(n, c). case c of
                         NumCol xs \<Rightarrow> (case skew xs of None \<Rightarrow> False | Some v \<Rightarrow> \<bar>v\<bar> > t)
                       | ObjCol xs \<Rightarrow> False) (columns (sdf self)))"
proof -
  have "map fst (filter (\<lambda>(n, s). case s of None \<Rightarrow> False | Some v \<Rightarrow> \<bar>v\<bar> > t)
          (map (\<lambda>(n, xs). (n, skew xs))
             (List.map_filter (\<lambda>(n, c). case c of NumCol xs \<Rightarrow> Some (n, xs) | ObjCol xs \<Rightarrow> None) cols)))
        = map fst (filter (\<lambda>(n, c). case c of
                         NumCol xs \<Rightarrow> (case skew xs of None \<Rightarrow> False | Some v \<Rightarrow> \<bar>v\<bar> > t)
                       | ObjCol xs \<Rightarrow> False) cols)" for cols
    by (induction cols) (auto simp: List.map_filter_def split: column.splits option.splits)
  then show ?thesis
    by (simp add: identify_skewed_columns_def select_dtypes_number_def Let_def)
qed

lemma identify_skewed_columns_set:
  "set (identify_skewed_columns t self) =
     {n. \<exists>xs v. (n, NumCol xs) \<in> set (columns (sdf self)) \<and> skew xs = Some v \<and> \<bar>v\<bar> > t}"
  unfolding identify_skewed_columns_filter
  by (force split: column.splits option.splits)

lemma map_fst_filter_distinct:
  assumes "distinct (map fst cols)"
  shows "map fst (filter P cols) = filter (\<lambda>n. n \<in> fst ` set (filter P cols)) (map fst cols)"
  using assms
proof (induction cols)
  case Nil
  show ?case by simp
next
  case (Cons e cols)
  have IH: "map fst (filter P cols) = filter (\<lambda>n. n \<in> fst ` set (filter P cols)) (map fst cols)"
    using Cons by simp
  have notin: "fst e \<notin> fst ` set cols" using Cons.prems by auto
  have eq: "filter (\<lambda>n. n \<in> fst ` set (filter P (e # cols))) (map fst cols)
          = filter (\<lambda>n. n \<in> fst ` set (filter P cols)) (map fst cols)"
    by (rule filter_cong) (use notin in \<open>auto simp: rev_image_eqI\<close>)
  show ?case
  proof (cases "P e")
    case True
    then show ?thesis using IH eq by simp
  next
    case False
    have "fst e \<notin> fst ` set (filter P cols)" using notin by auto
    then show ?thesis using False IH eq by simp
  qed
qed

lemma identify_skewed_columns_order:
  assumes "distinct (names (sdf self))"
  shows "identify_skewed_columns t self
           = filter (\<lambda>n. n \<in> set (identify_skewed_columns t self)) (names (sdf self))"
proof -
  let ?P = "\<lambda>(n, c). case c of
                         NumCol xs \<Rightarrow> (case skew xs of None \<Rightarrow> False | Some v \<Rightarrow> \<bar>v\<bar> > t)
                       | ObjCol xs \<Rightarrow> False"
  have "map fst (filter ?P (columns (sdf self)))
      = filter (\<lambda>n. n \<in> fst ` set (filter ?P (columns (sdf self)))) (map fst (columns (sdf self)))"
    by (rule map_fst_filter_distinct) (use assms in \<open>simp add: names_def\<close>)
  then show ?thesis
    unfolding identify_skewed_columns_filter names_def set_map .
qed

lemma identify_skewed_columns_distinct:
  "distinct (names (sdf self)) \<Longrightarrow> distinct (identify_skewed_columns t self)"
  unfolding identify_skewed_columns_filter names_def by (rule distinct_map_filter)

text \<open>
  Claim C5, as amended. For every dataset with unique column labels and every threshold,
  identify_skewed_columns returns exactly the labels of the numeric columns whose
  skewness, as \<open>Series.skew\<close> computes it, exceeds the threshold in absolute value, in
  the column order of the dataset, and never the label of a text column. That skewness
  is the adjusted Fisher-Pearson coefficient of the non-null values whenever there are at
  least three of them and the sums of their squared and of their cubed deviations are
  both at least 1e-14 in absolute value; a sum below 1e-14 is taken as 0. On the frame
  with x = [1,1,1,1,100], y = [1,2,3,4,5] and a text column z, at threshold 2, the
  result is [x].
\<close>

theorem identify_skewed_columns_exact:
  "(distinct (names (sdf self)) \<longrightarrow>
     set (identify_skewed_columns t self)
       = {n. \<exists>xs v. (n, NumCol xs) \<in> set (columns (sdf self)) \<and> skew xs = Some v \<and> \<bar>v\<bar> > t}
     \<and> identify_skewed_columns t self
         = filter (\<lambda>n. n \<in> set (identify_skewed_columns t self)) (names (sdf self))
     \<and> (\<forall>n xs. (n, ObjCol xs) \<in> set (columns (sdf self)) \<longrightarrow>
            n \<notin> set (identify_skewed_columns t self)))
   \<and> (3 \<le> length (notnull_values ws)
        \<and> 1 / 10 ^ 14 \<le> \<bar>real (length (notnull_values ws)) * central_moment 2 (notnull_values ws)\<bar>
        \<and> 1 / 10 ^ 14 \<le> \<bar>real (length (notnull_values ws)) * central_moment 3 (notnull_values ws)\<bar>
        \<longrightarrow> skew ws = Some (adjusted_fisher_pearson (notnull_values ws)))
   \<and> identify_skewed_columns 2 (SkewTransform_init skew_frame) = [''x'']"
proof (intro impI conjI allI)
  show "set (identify_skewed_columns t self)
     = {n. \<exists>xs v. (n, NumCol xs) \<in> set (columns (sdf self)) \<and> skew xs = Some v \<and> \<bar>v\<bar> > t}"
    by (rule identify_skewed_columns_set)
  show "identify_skewed_columns 2 (SkewTransform_init skew_frame) = [''x'']"
    by (rule identify_skewed_skew_frame)
next
  assume "distinct (names (sdf self))"
  then show "identify_skewed_columns t self
       = filter (\<lambda>n. n \<in> set (identify_skewed_columns t self)) (names (sdf self))"
    by (rule identify_skewed_columns_order)
next
  fix n xs
  assume dist: "distinct (names (sdf self))" and obj: "(n, ObjCol xs) \<in> set (columns (sdf self))"
  show "n \<notin> set (identify_skewed_columns t self)"
  proof
    assume "n \<in> set (identify_skewed_columns t self)"
    then obtain ys where "(n, NumCol ys) \<in> set (columns (sdf self))"
      by (auto simp: identify_skewed_columns_set)
    then have "map_of (columns (sdf self)) n = Some (NumCol ys)"
      using dist by (simp add: names_def)
    moreover have "map_of (columns (sdf self)) n = Some (ObjCol xs)"
      using dist obj by (simp add: names_def)
    ultimately show False by simp
  qed
next
  assume "3 \<le> length (notnull_values ws)
        \<and> 1 / 10 ^ 14 \<le> \<bar>real (length (notnull_values ws)) * central_moment 2 (notnull_values ws)\<bar>
        \<and> 1 / 10 ^ 14 \<le> \<bar>real (length (notnull_values ws)) * central_moment 3 (notnull_values ws)\<bar>"
  then show "skew ws = Some (adjusted_fisher_pearson (notnull_values ws))"
    using skew_eq_fisher_pearson by blast
qed

theorem identify_skewed_columns_exact_witness:
  "distinct (names (sdf (SkewTransform_init skew_frame)))
   \<and> identify_skewed_columns 2 (SkewTransform_init skew_frame) = [''x'']
   \<and> (''z'', ObjCol [Some ''a'', Some ''b'', Some ''c'', Some ''d'', Some ''e''])
        \<in> set (columns (sdf (SkewTransform_init skew_frame)))
   \<and> ''z'' \<notin> set (identify_skewed_columns 2 (SkewTransform_init skew_frame))
   \<and> set (identify_skewed_columns 2 (SkewTransform_init skew_frame))
       = {n. \<exists>xs v. (n, NumCol xs) \<in> set (columns (sdf (SkewTransform_init skew_frame)))
                 \<and> skew xs = Some v \<and> \<bar>v\<bar> > 2}
   \<and> 3 \<le> length (notnull_values [Some 1, Some 1, Some 1, Some 1, Some (100::real)])
   \<and> 1 / 10 ^ 14 \<le> \<bar>real (length (notnull_values [Some 1, Some 1, Some 1, Some 1, Some (100::real)]))
                       * central_moment 2 (notnull_values [Some 1, Some 1, Some 1, Some 1, Some 100])\<bar>
   \<and> 1 / 10 ^ 14 \<le> \<bar>real (length (notnull_values [Some 1, Some 1, Some 1, Some 1, Some (100::real)]))
                       * central_moment 3 (notnull_values [Some 1, Some 1, Some 1, Some 1, Some 100])\<bar>
   \<and> skew [Some 1, Some 1, Some 1, Some 1, Some 100]
       = Some (adjusted_fisher_pearson [1, 1, 1, 1, 100])"
proof -
  let ?xs = "[Some 1, Some 1, Some 1, Some 1, Some (100::real)]"
  have dist: "distinct (names (sdf (SkewTransform_init skew_frame)))"
    by (simp add: names_def SkewTransform_init_def skew_frame_def)
  have z: "(''z'', ObjCol [Some ''a'', Some ''b'', Some ''c'', Some ''d'', Some ''e''])
        \<in> set (columns (sdf (SkewTransform_init skew_frame)))"
    by (simp add: SkewTransform_init_def skew_frame_def)
  have nn: "notnull_values ?xs = [1, 1, 1, 1, 100]" by simp
  have len: "3 \<le> length (notnull_values ?xs)" by simp
  have b2: "1 / 10 ^ 14 \<le> \<bar>real (length (notnull_values ?xs)) * central_moment 2 (notnull_values ?xs)\<bar>"
    unfolding nn by (simp add: central_moment_def power2_eq_square)
  have b3: "1 / 10 ^ 14 \<le> \<bar>real (length (notnull_values ?xs)) * central_moment 3 (notnull_values ?xs)\<bar>"
    unfolding nn by (simp add: central_moment_def power3_eq_cube)
  note T = identify_skewed_columns_exact[of "SkewTransform_init skew_frame" 2 ?xs]
  have fp: "skew ?xs = Some (adjusted_fisher_pearson [1, 1, 1, 1, 100])"
    using T len b2 b3 unfolding nn by blast
  have rest: "identify_skewed_columns 2 (SkewTransform_init skew_frame) = [''x'']
   \<and> ''z'' \<notin> set (identify_skewed_columns 2 (SkewTransform_init skew_frame))
   \<and> set (identify_skewed_columns 2 (SkewTransform_init skew_frame))
       = {n. \<exists>xs v. (n, NumCol xs) \<in> set (columns (sdf (SkewTransform_init skew_frame)))
                 \<and> skew xs = Some v \<and> \<bar>v\<bar> > 2}"
    using T dist z by blast
  show ?thesis using dist z len b2 b3 fp rest by (intro conjI) blast+
qed

text \<open>
  The claim as stated fails: the column [0,0,0,0,0.00001] has the adjusted Fisher-Pearson
  skewness sqrt 5 > 2, but its sum of cubed deviations, 4.8e-16, is below the cut-off of
  \<open>Series.skew\<close>, which returns 0, so the column is not selected at threshold 2.
\<close>

theorem identify_skewed_columns_cutoff_counterexample:
  "identify_skewed_columns 2 (SkewTransform_init tiny_frame) = []
   \<and> columns (sdf (SkewTransform_init tiny_frame))
       = [(''x'', NumCol [Some 0, Some 0, Some 0, Some 0, Some (1 / 100000)])]
   \<and> \<bar>adjusted_fisher_pearson [0, 0, 0, 0, 1 / 100000]\<bar> > 2"
  using identify_skewed_tiny_frame fisher_pearson_tiny_gt
  by (simp add: SkewTransform_init_def tiny_frame_def)

section \<open>The loops of SkewTransform\<close>

lemma setitem_existing:
  "map_of (columns d) k = Some c \<Longrightarrow> setitem k c' d = replace_column k c' d"
  by (simp add: setitem_def names_mem_iff)

lemma loop_replace:
  fixes body :: "string \<Rightarrow> SkewTransform \<Rightarrow> error + SkewTransform"
  assumes body: "\<And>k s c. k \<in> set ks \<Longrightarrow> distinct (names (sdf s)) \<Longrightarrow>
        map_of (columns (sdf s)) k = Some c \<Longrightarrow> P c \<Longrightarrow>
        body k s = Inr (s\<lparr>sdf := replace_column k (g c) (sdf s), sprinted := sprinted s @ out k c\<rparr>)"
    and "distinct ks"
    and "\<forall>k \<in> set ks. \<exists>c. map_of (columns (sdf s)) k = Some c \<and> P c"
    and "distinct (names (sdf s))"
  shows "\<exists>s'. for_each body ks s = Inr s'
      \<and> names (sdf s') = names (sdf s) \<and> nrows (sdf s') = nrows (sdf s)
      \<and> (\<forall>x. map_of (columns (sdf s')) x =
               (if x \<in> set ks then map_option g (map_of (columns (sdf s)) x)
                else map_of (columns (sdf s)) x))
      \<and> sprinted s' = sprinted s @ concat (map (\<lambda>k. out k (the (map_of (columns (sdf s)) k))) ks)"
  using assms
proof (induction ks arbitrary: s)
  case Nil
  then show ?case by simp
next
  case (Cons k ks)
  obtain c where c: "map_of (columns (sdf s)) k = Some c" "P c" using Cons.prems(3) by auto
  define s1 where "s1 = s\<lparr>sdf := replace_column k (g c) (sdf s), sprinted := sprinted s @ out k c\<rparr>"
  have step: "body k s = Inr s1"
    using Cons.prems(1)[of k s c] c Cons.prems(4) by (simp add: s1_def)
  have dist1: "distinct (names (sdf s1))" using Cons.prems(4) by (simp add: s1_def)
  have look1: "map_of (columns (sdf s1)) x =
      (if x = k then Some (g c) else map_of (columns (sdf s)) x)" for x
    using c(1) by (simp add: s1_def map_of_replace_column)
  have knot: "k \<notin> set ks" and dist: "distinct ks" using Cons.prems(2) by auto
  have pre: "\<forall>k' \<in> set ks. \<exists>c. map_of (columns (sdf s1)) k' = Some c \<and> P c"
    using Cons.prems(3) knot look1 by auto
  have "\<exists>s'. for_each body ks s1 = Inr s'
      \<and> names (sdf s') = names (sdf s1) \<and> nrows (sdf s') = nrows (sdf s1)
      \<and> (\<forall>x. map_of (columns (sdf s')) x =
               (if x \<in> set ks then map_option g (map_of (columns (sdf s1)) x)
                else map_of (columns (sdf s1)) x))
      \<and> sprinted s' = sprinted s1 @ concat (map (\<lambda>k. out k (the (map_of (columns (sdf s1)) k))) ks)"
    by (rule Cons.IH[OF _ dist pre dist1]) (use Cons.prems(1) in auto)
  then obtain s' where s': "for_each body ks s1 = Inr s'"
    "names (sdf s') = names (sdf s1)" "nrows (sdf s') = nrows (sdf s1)"
    "\<forall>x. map_of (columns (sdf s')) x =
               (if x \<in> set ks then map_option g (map_of (columns (sdf s1)) x)
                else map_of (columns (sdf s1)) x)"
    "sprinted s' = sprinted s1 @ concat (map (\<lambda>k. out k (the (map_of (columns (sdf s1)) k))) ks)"
    by blast
  have outs: "map (\<lambda>k. out k (the (map_of (columns (sdf s1)) k))) ks
            = map (\<lambda>k. out k (the (map_of (columns (sdf s)) k))) ks"
    by (rule map_cong) (use knot look1 in auto)
  have "for_each body (k # ks) s = Inr s'" using step s'(1) by simp
  moreover have "names (sdf s') = names (sdf s)" "nrows (sdf s') = nrows (sdf s)"
    using s'(2,3) by (simp_all add: s1_def)
  moreover have "\<forall>x. map_of (columns (sdf s')) x =
               (if x \<in> set (k # ks) then map_option g (map_of (columns (sdf s)) x)
                else map_of (columns (sdf s)) x)"
    using s'(4) look1 knot c(1) by auto
  moreover have "sprinted s' = sprinted s @ concat (map (\<lambda>k. out k (the (map_of (columns (sdf s)) k))) (k # ks))"
  proof -
    have "sprinted s1 = sprinted s @ out k c" by (simp add: s1_def)
    then show ?thesis unfolding s'(5) outs by (simp add: c(1))
  qed
  ultimately show ?case by blast
qed

lemma skewed_is_numeric:
  assumes "distinct (names (sdf self))" "k \<in> set (identify_skewed_columns t self)"
  shows "\<exists>xs. map_of (columns (sdf self)) k = Some (NumCol xs)"
  using assms by (auto simp: identify_skewed_columns_set names_def)

lemma transform_log_body_Num:
  assumes "map_of (columns (sdf s)) k = Some (NumCol xs)"
  shows "transform_log_body k s =
     Inr (s\<lparr>sdf := replace_column k (NumCol (map (map_option (\<lambda>x. log1p (clip_lower 0 x))) xs)) (sdf s),
            sprinted := sprinted s @ []\<rparr>)"
  using assms setitem_existing[OF assms]
  by (simp add: transform_log_body_def getitem_def)

lemma clip_lower_max: "clip_lower lower x = max x lower"
  by (simp add: clip_lower_def max_def)

lemma exp_log1p_clip: "x \<ge> 0 \<Longrightarrow> exp (log1p (clip_lower 0 x)) - 1 = x"
  by (simp add: log1p_def clip_lower_def)

lemma transform_log_columns:
  "distinct (names (sdf self)) \<longrightarrow>
   (\<exists>self'. transform_log t self = Inr self'
      \<and> names (sdf self') = names (sdf self)
      \<and> (\<forall>n c. (n, c) \<in> set (columns (sdf self)) \<longrightarrow>
            map_of (columns (sdf self')) n =
              Some (if n \<in> set (identify_skewed_columns t self)
                    then (case c of
                            NumCol xs \<Rightarrow> NumCol (map (map_option (\<lambda>x. log1p (clip_lower 0 x))) xs)
                          | ObjCol xs \<Rightarrow> c)
                    else c))
      \<and> (\<forall>n xs. (n, NumCol xs) \<in> set (columns (sdf self))
               \<and> n \<in> set (identify_skewed_columns t self)
               \<and> (\<forall>x. Some x \<in> set xs \<longrightarrow> x \<ge> 0) \<longrightarrow>
            (\<exists>ys. map_of (columns (sdf self')) n = Some (NumCol ys)
                 \<and> map (map_option (\<lambda>y. exp y - 1)) ys = xs)))"
proof
  assume dist: "distinct (names (sdf self))"
  let ?g = "\<lambda>c. case c of
                NumCol xs \<Rightarrow> NumCol (map (map_option (\<lambda>x. log1p (clip_lower 0 x))) xs)
              | ObjCol xs \<Rightarrow> c"
  let ?ks = "identify_skewed_columns t self"
  have "\<exists>s'. for_each transform_log_body ?ks self = Inr s'
      \<and> names (sdf s') = names (sdf self) \<and> nrows (sdf s') = nrows (sdf self)
      \<and> (\<forall>x. map_of (columns (sdf s')) x =
               (if x \<in> set ?ks then map_option ?g (map_of (columns (sdf self)) x)
                else map_of (columns (sdf self)) x))
      \<and> sprinted s' = sprinted self @ concat (map (\<lambda>k. [] :: notice list) ?ks)"
  proof (rule loop_replace[where P = "\<lambda>c. \<exists>xs. c = NumCol xs" and out = "\<lambda>k c. []"])
    fix k and s :: SkewTransform and c
    assume "map_of (columns (sdf s)) k = Some c" "\<exists>xs. c = NumCol xs"
    then show "transform_log_body k s =
        Inr (s\<lparr>sdf := replace_column k (?g c) (sdf s), sprinted := sprinted s @ []\<rparr>)"
      using transform_log_body_Num by auto
  next
    show "distinct ?ks" by (rule identify_skewed_columns_distinct[OF dist])
    show "\<forall>k \<in> set ?ks. \<exists>c. map_of (columns (sdf self)) k = Some c \<and> (\<exists>xs. c = NumCol xs)"
      using skewed_is_numeric[OF dist] by blast
    show "distinct (names (sdf self))" by (rule dist)
  qed
  then obtain s' where s': "for_each transform_log_body ?ks self = Inr s'"
    "names (sdf s') = names (sdf self)"
    "\<forall>x. map_of (columns (sdf s')) x =
               (if x \<in> set ?ks then map_option ?g (map_of (columns (sdf self)) x)
                else map_of (columns (sdf self)) x)"
    by blast
  have run: "transform_log t self = Inr s'"
    using s'(1) by (simp add: transform_log_def Let_def)
  have cols: "map_of (columns (sdf s')) n = Some (if n \<in> set ?ks then ?g c else c)"
    if "(n, c) \<in> set (columns (sdf self))" for n c
  proof -
    have "map_of (columns (sdf self)) n = Some c"
      using dist that by (simp add: names_def)
    then show ?thesis using s'(3) by simp
  qed
  have inv: "\<exists>ys. map_of (columns (sdf s')) n = Some (NumCol ys)
                 \<and> map (map_option (\<lambda>y. exp y - 1)) ys = xs"
    if "(n, NumCol xs) \<in> set (columns (sdf self)) \<and> n \<in> set ?ks
          \<and> (\<forall>x. Some x \<in> set xs \<longrightarrow> x \<ge> 0)" for n xs
  proof -
    have "map_of (columns (sdf s')) n
            = Some (NumCol (map (map_option (\<lambda>x. log1p (clip_lower 0 x))) xs))"
      using cols[of n "NumCol xs"] that by simp
    moreover have "map (map_option (\<lambda>y. exp y - 1))
                     (map (map_option (\<lambda>x. log1p (clip_lower 0 x))) xs) = xs"
    proof -
      have nonneg: "\<And>v. Some v \<in> set xs \<Longrightarrow> v \<ge> 0" using that by blast
      have "(map_option (\<lambda>y. exp y - 1) \<circ> map_option (\<lambda>x. log1p (clip_lower 0 x))) x = x"
        if mem: "x \<in> set xs" for x
      proof (cases x)
        case None
        then show ?thesis by simp
      next
        case (Some v)
        then have "v \<ge> 0" using nonneg mem by simp
        then show ?thesis using Some exp_log1p_clip by simp
      qed
      then show ?thesis by (simp only: map_map) (rule map_idI)
    qed
    ultimately show ?thesis by blast
  qed
  show "\<exists>self'. transform_log t self = Inr self'
      \<and> names (sdf self') = names (sdf self)
      \<and> (\<forall>n c. (n, c) \<in> set (columns (sdf self)) \<longrightarrow>
            map_of (columns (sdf self')) n =
              Some (if n \<in> set (identify_skewed_columns t self) then ?g c else c))
      \<and> (\<forall>n xs. (n, NumCol xs) \<in> set (columns (sdf self))
               \<and> n \<in> set (identify_skewed_columns t self)
               \<and> (\<forall>x. Some x \<in> set xs \<longrightarrow> x \<ge> 0) \<longrightarrow>
            (\<exists>ys. map_of (columns (sdf self')) n = Some (NumCol ys)
                 \<and> map (map_option (\<lambda>y. exp y - 1)) ys = xs))"
    using run s'(2) cols inv by blast
qed

lemma log1p_clip_max: "(\<lambda>x. log1p (clip_lower 0 x)) = (\<lambda>x. ln (1 + max x 0))"
  by (simp add: log1p_def clip_lower_max)

lemma skew_v: "skew [Some (- 3), Some (- 3), Some (- 3), Some (- 3), Some 3] = Some (12 / sqrt (144 / 5))"
  by (simp add: skew_def zero_out_fperr_def Let_def power2_eq_square power3_eq_cube sqrt4 field_simps)

lemma skew_v_gt: "\<bar>12 / sqrt (144 / 5)\<bar> > (2::real)"
proof -
  have "sqrt (144 / 5) < sqrt (6\<^sup>2)"
    by (subst real_sqrt_less_iff) (simp add: power2_eq_square)
  then have "2 * sqrt (144 / 5) < 12" by simp
  moreover have "sqrt (144 / 5) > 0" by simp
  ultimately have "2 < 12 / sqrt (144 / 5)" by (simp add: pos_less_divide_eq)
  then show ?thesis by simp
qed

lemma identify_skewed_log_frame:
  "identify_skewed_columns 2 (SkewTransform_init log_frame) = [''x'', ''v'']"
  using skew_x_gt skew_v_gt
  by (simp add: identify_skewed_columns_def SkewTransform_init_def log_frame_def
      select_dtypes_number_def List.map_filter_def skew_x skew_v)

text \<open>
  Claim C7. For every dataset with unique column labels, transform_log returns; it
  replaces each value x of each skewed column by ln (1 + max x 0), that is
  log1p(max(x, 0)) (a null stays null), and leaves every other column as it was; and on
  every skewed column whose values were all at least 0, mapping exp(y) - 1 over the
  transformed values gives back the original values. Numbers are real numbers here, so
  the recovery is exact.
\<close>

theorem transform_log_inverse:
  "distinct (names (sdf self)) \<longrightarrow>
   (\<exists>self'. transform_log t self = Inr self'
      \<and> names (sdf self') = names (sdf self)
      \<and> (\<forall>n c. (n, c) \<in> set (columns (sdf self)) \<longrightarrow>
            map_of (columns (sdf self')) n =
              Some (if n \<in> set (identify_skewed_columns t self)
                    then (case c of
                            NumCol xs \<Rightarrow> NumCol (map (map_option (\<lambda>x. ln (1 + max x 0))) xs)
                          | ObjCol xs \<Rightarrow> c)
                    else c))
      \<and> (\<forall>n xs. (n, NumCol xs) \<in> set (columns (sdf self))
               \<and> n \<in> set (identify_skewed_columns t self)
               \<and> (\<forall>x. Some x \<in> set xs \<longrightarrow> x \<ge> 0) \<longrightarrow>
            (\<exists>ys. map_of (columns (sdf self')) n = Some (NumCol ys)
                 \<and> map (map_option (\<lambda>y. exp y - 1)) ys = xs)))"
  using transform_log_columns[of self t] unfolding log1p_clip_max .

theorem transform_log_inverse_witness:
  "distinct (names (sdf (SkewTransform_init log_frame)))
   \<and> (''x'', NumCol [Some 1, Some 1, Some 1, Some 1, Some 100])
        \<in> set (columns (sdf (SkewTransform_init log_frame)))
   \<and> (''v'', NumCol [Some (- 3), Some (- 3), Some (- 3), Some (- 3), Some 3])
        \<in> set (columns (sdf (SkewTransform_init log_frame)))
   \<and> identify_skewed_columns 2 (SkewTransform_init log_frame) = [''x'', ''v'']
   \<and> (\<exists>self'. transform_log 2 (SkewTransform_init log_frame) = Inr self'
        \<and> map_of (columns (sdf self')) ''v''
            = Some (NumCol [Some 0, Some 0, Some 0, Some 0, Some (ln 4)])
        \<and> (\<exists>ys. map_of (columns (sdf self')) ''x'' = Some (NumCol ys)
              \<and> map (map_option (\<lambda>y. exp y - 1)) ys
                  = [Some 1, Some 1, Some 1, Some 1, Some 100]))"
proof -
  let ?S = "SkewTransform_init log_frame"
  let ?xs = "[Some 1, Some 1, Some 1, Some 1, Some (100::real)]"
  let ?vs = "[Some (- 3), Some (- 3), Some (- 3), Some (- 3), Some (3::real)]"
  have dist: "distinct (names (sdf ?S))"
    by (simp add: names_def SkewTransform_init_def log_frame_def)
  have memx: "(''x'', NumCol ?xs) \<in> set (columns (sdf ?S))"
    by (simp add: SkewTransform_init_def log_frame_def)
  have memv: "(''v'', NumCol ?vs) \<in> set (columns (sdf ?S))"
    by (simp add: SkewTransform_init_def log_frame_def)
  have skx: "''x'' \<in> set (identify_skewed_columns 2 ?S)"
    and skv: "''v'' \<in> set (identify_skewed_columns 2 ?S)"
    by (simp_all add: identify_skewed_log_frame)
  have nonneg: "\<forall>x. Some x \<in> set ?xs \<longrightarrow> x \<ge> 0" by auto
  from transform_log_inverse[of ?S 2] dist
  obtain self' where s': "transform_log 2 ?S = Inr self'"
    "\<forall>n c. (n, c) \<in> set (columns (sdf ?S)) \<longrightarrow>
            map_of (columns (sdf self')) n =
              Some (if n \<in> set (identify_skewed_columns 2 ?S)
                    then (case c of
                            NumCol xs \<Rightarrow> NumCol (map (map_option (\<lambda>x. ln (1 + max x 0))) xs)
                          | ObjCol xs \<Rightarrow> c)
                    else c)"
    "\<forall>n xs. (n, NumCol xs) \<in> set (columns (sdf ?S))
               \<and> n \<in> set (identify_skewed_columns 2 ?S)
               \<and> (\<forall>x. Some x \<in> set xs \<longrightarrow> x \<ge> 0) \<longrightarrow>
            (\<exists>ys. map_of (columns (sdf self')) n = Some (NumCol ys)
                 \<and> map (map_option (\<lambda>y. exp y - 1)) ys = xs)"
    by blast
  have "map_of (columns (sdf self')) ''v''
      = Some (NumCol (map (map_option (\<lambda>x. ln (1 + max x 0))) ?vs))"
    using s'(2) memv skv by force
  then have v: "map_of (columns (sdf self')) ''v''
            = Some (NumCol [Some 0, Some 0, Some 0, Some 0, Some (ln 4)])"
    by simp
  have x: "\<exists>ys. map_of (columns (sdf self')) ''x'' = Some (NumCol ys)
              \<and> map (map_option (\<lambda>y. exp y - 1)) ys = ?xs"
    using s'(3) memx skx nonneg by blast
  have "\<exists>self'. transform_log 2 ?S = Inr self'
        \<and> map_of (columns (sdf self')) ''v''
            = Some (NumCol [Some 0, Some 0, Some 0, Some 0, Some (ln 4)])
        \<and> (\<exists>ys. map_of (columns (sdf self')) ''x'' = Some (NumCol ys)
              \<and> map (map_option (\<lambda>y. exp y - 1)) ys = ?xs)"
    using s'(1) v x by (intro exI[of _ self'] conjI)
  with dist memx memv identify_skewed_log_frame show ?thesis by (intro conjI)
qed

section \<open>transform_box_cox\<close>

lemma transform_box_cox_body_Num:
  assumes look: "map_of (columns (sdf s)) k = Some (NumCol xs)"
    and dist: "distinct (names (sdf s))"
    and ok: "all_positive xs \<longrightarrow> (\<exists>ys l. boxcox (map the xs) = Inr (ys, l))"
  shows "transform_box_cox_body boxcox k s =
     Inr (s\<lparr>sdf := replace_column k
                    (if all_positive xs
                     then (case boxcox (map the xs) of
                             Inl e \<Rightarrow> NumCol xs | Inr (ys, l) \<Rightarrow> NumCol (map Some ys))
                     else NumCol xs) (sdf s),
            sprinted := sprinted s @ (if all_positive xs then [] else [BoxCoxSkipped k])\<rparr>)"
proof (cases "all_positive xs")
  case True
  then obtain ys l where b: "boxcox (map the xs) = Inr (ys, l)" using ok by blast
  show ?thesis
    using True b look setitem_existing[OF look]
    by (simp add: transform_box_cox_body_def getitem_def)
next
  case False
  have "replace_column k (NumCol xs) (sdf s) = sdf s"
    by (rule replace_column_same[OF dist look])
  then show ?thesis
    using False look by (simp add: transform_box_cox_body_def getitem_def)
qed

lemma not_all_positive: "Some v \<in> set xs \<Longrightarrow> v \<le> 0 \<Longrightarrow> \<not> all_positive xs"
  unfolding all_positive_def list_all_iff by (force intro: bexI[of _ "Some v"])

lemma concat_singletons:
  "concat (map (\<lambda>k. if Q k then [f k] else []) ks) = map f (filter Q ks)"
  by (induction ks) auto

text \<open>
  Claim C6. For every dataset with unique column labels and every threshold, as long as
  the library's Box-Cox fit returns on the all-positive skewed columns, transform_box_cox
  returns without an error. Every skewed column holding a value that is not positive is
  left exactly as it was and a notice naming it is printed. Every skewed column whose
  values are all strictly positive holds the Box-Cox-transformed values afterwards, the
  fitted parameter discarded. Every other column is left as it was, and the notices
  printed are exactly those of the skewed columns that are not all positive, in order.
\<close>

theorem transform_box_cox_skips_non_positive:
  "distinct (names (sdf self))
   \<and> (\<forall>n xs. (n, NumCol xs) \<in> set (columns (sdf self))
          \<and> n \<in> set (identify_skewed_columns t self) \<and> all_positive xs \<longrightarrow>
          (\<exists>ys l. boxcox (map the xs) = Inr (ys, l))) \<longrightarrow>
   (\<exists>self'. transform_box_cox boxcox t self = Inr self'
      \<and> names (sdf self') = names (sdf self)
      \<and> (\<forall>n xs v. (n, NumCol xs) \<in> set (columns (sdf self))
             \<and> n \<in> set (identify_skewed_columns t self)
             \<and> Some v \<in> set xs \<and> v \<le> 0 \<longrightarrow>
             map_of (columns (sdf self')) n = Some (NumCol xs)
             \<and> BoxCoxSkipped n \<in> set (sprinted self'))
      \<and> (\<forall>n xs. (n, NumCol xs) \<in> set (columns (sdf self))
             \<and> n \<in> set (identify_skewed_columns t self) \<and> all_positive xs \<longrightarrow>
             (\<exists>ys l. boxcox (map the xs) = Inr (ys, l)
                \<and> map_of (columns (sdf self')) n = Some (NumCol (map Some ys))))
      \<and> (\<forall>n c. (n, c) \<in> set (columns (sdf self))
             \<and> \<not> (n \<in> set (identify_skewed_columns t self)
                    \<and> (\<exists>xs. c = NumCol xs \<and> all_positive xs)) \<longrightarrow>
             map_of (columns (sdf self')) n = Some c)
      \<and> sprinted self' = sprinted self
           @ map BoxCoxSkipped
               (filter (\<lambda>n. \<exists>xs. map_of (columns (sdf self)) n = Some (NumCol xs)
                               \<and> \<not> all_positive xs)
                  (identify_skewed_columns t self)))"
proof (intro impI, elim conjE)
  assume dist: "distinct (names (sdf self))"
    and ok: "\<forall>n xs. (n, NumCol xs) \<in> set (columns (sdf self))
          \<and> n \<in> set (identify_skewed_columns t self) \<and> all_positive xs \<longrightarrow>
          (\<exists>ys l. boxcox (map the xs) = Inr (ys, l))"
  let ?ks = "identify_skewed_columns t self"
  let ?g = "\<lambda>c. case c of
                NumCol xs \<Rightarrow>
                  (if all_positive xs
                   then (case boxcox (map the xs) of
                           Inl e \<Rightarrow> NumCol xs | Inr (ys, l) \<Rightarrow> NumCol (map Some ys))
                   else NumCol xs)
              | ObjCol xs \<Rightarrow> c"
  let ?out = "\<lambda>k c. case c of
                NumCol xs \<Rightarrow> (if all_positive xs then [] else [BoxCoxSkipped k])
              | ObjCol xs \<Rightarrow> []"
  let ?P = "\<lambda>c. \<exists>xs. c = NumCol xs \<and> (all_positive xs \<longrightarrow> (\<exists>ys l. boxcox (map the xs) = Inr (ys, l)))"
  have look: "map_of (columns (sdf self)) n = Some c" if "(n, c) \<in> set (columns (sdf self))" for n c
    using dist that by (simp add: names_def)
  have "\<exists>s'. for_each (transform_box_cox_body boxcox) ?ks self = Inr s'
      \<and> names (sdf s') = names (sdf self) \<and> nrows (sdf s') = nrows (sdf self)
      \<and> (\<forall>x. map_of (columns (sdf s')) x =
               (if x \<in> set ?ks then map_option ?g (map_of (columns (sdf self)) x)
                else map_of (columns (sdf self)) x))
      \<and> sprinted s' = sprinted self
            @ concat (map (\<lambda>k. ?out k (the (map_of (columns (sdf self)) k))) ?ks)"
  proof (rule loop_replace[where P = ?P])
    fix k and s :: SkewTransform and c
    assume "distinct (names (sdf s))" "map_of (columns (sdf s)) k = Some c" "?P c"
    then show "transform_box_cox_body boxcox k s =
        Inr (s\<lparr>sdf := replace_column k (?g c) (sdf s), sprinted := sprinted s @ ?out k c\<rparr>)"
      using transform_box_cox_body_Num[of s k _ boxcox] by auto
  next
    show "distinct ?ks" by (rule identify_skewed_columns_distinct[OF dist])
    show "distinct (names (sdf self))" by (rule dist)
    show "\<forall>k \<in> set ?ks. \<exists>c. map_of (columns (sdf self)) k = Some c \<and> ?P c"
    proof
      fix k assume k: "k \<in> set ?ks"
      then obtain xs where xs: "(k, NumCol xs) \<in> set (columns (sdf self))"
        by (auto simp: identify_skewed_columns_set)
      then have "all_positive xs \<longrightarrow> (\<exists>ys l. boxcox (map the xs) = Inr (ys, l))"
        using ok k by blast
      then show "\<exists>c. map_of (columns (sdf self)) k = Some c \<and> ?P c"
        using look[OF xs] by blast
    qed
  qed
  then obtain s' where s': "for_each (transform_box_cox_body boxcox) ?ks self = Inr s'"
    "names (sdf s') = names (sdf self)"
    "\<forall>x. map_of (columns (sdf s')) x =
               (if x \<in> set ?ks then map_option ?g (map_of (columns (sdf self)) x)
                else map_of (columns (sdf self)) x)"
    "sprinted s' = sprinted self
            @ concat (map (\<lambda>k. ?out k (the (map_of (columns (sdf self)) k))) ?ks)"
    by blast
  have run: "transform_box_cox boxcox t self = Inr s'"
    using s'(1) by (simp add: transform_box_cox_def Let_def)
  have skip: "map_of (columns (sdf s')) n = Some (NumCol xs) \<and> BoxCoxSkipped n \<in> set (sprinted s')"
    if a: "(n, NumCol xs) \<in> set (columns (sdf self)) \<and> n \<in> set ?ks \<and> Some v \<in> set xs \<and> v \<le> 0"
    for n xs v
  proof -
    have np: "\<not> all_positive xs" using a not_all_positive by blast
    have l: "map_of (columns (sdf self)) n = Some (NumCol xs)" using look a by blast
    have "map_of (columns (sdf s')) n = Some (NumCol xs)"
      using s'(3) a l np by simp
    moreover have "BoxCoxSkipped n \<in> set (?out n (the (map_of (columns (sdf self)) n)))"
      using l np by simp
    then have "BoxCoxSkipped n
        \<in> set (concat (map (\<lambda>k. ?out k (the (map_of (columns (sdf self)) k))) ?ks))"
      unfolding set_concat set_map using a by blast
    then have "BoxCoxSkipped n \<in> set (sprinted s')"
      unfolding s'(4) set_append by (rule UnI2)
    ultimately show ?thesis by blast
  qed
  have pos: "\<exists>ys l. boxcox (map the xs) = Inr (ys, l)
                \<and> map_of (columns (sdf s')) n = Some (NumCol (map Some ys))"
    if a: "(n, NumCol xs) \<in> set (columns (sdf self)) \<and> n \<in> set ?ks \<and> all_positive xs"
    for n xs
  proof -
    have l: "map_of (columns (sdf self)) n = Some (NumCol xs)" using look a by blast
    obtain ys l where b: "boxcox (map the xs) = Inr (ys, l)" using ok a by blast
    have "map_of (columns (sdf s')) n = Some (?g (NumCol xs))" using s'(3) a l by simp
    then have "map_of (columns (sdf s')) n = Some (NumCol (map Some ys))"
      using a b by simp
    then show ?thesis using b by blast
  qed
  have other: "map_of (columns (sdf s')) n = Some c"
    if a: "(n, c) \<in> set (columns (sdf self))
             \<and> \<not> (n \<in> set ?ks \<and> (\<exists>xs. c = NumCol xs \<and> all_positive xs))"
    for n c
  proof (cases "n \<in> set ?ks")
    case False
    then show ?thesis using s'(3) look a by simp
  next
    case True
    have l: "map_of (columns (sdf self)) n = Some c" using look a by blast
    have "?g c = c"
    proof (cases c)
      case (NumCol xs)
      then have "\<not> all_positive xs" using a True by blast
      then show ?thesis using NumCol by simp
    next
      case (ObjCol xs)
      then show ?thesis by simp
    qed
    then show ?thesis using s'(3) True l by simp
  qed
  have notices: "sprinted s' = sprinted self
           @ map BoxCoxSkipped
               (filter (\<lambda>n. \<exists>xs. map_of (columns (sdf self)) n = Some (NumCol xs)
                               \<and> \<not> all_positive xs) ?ks)"
  proof -
    have "map (\<lambda>k. ?out k (the (map_of (columns (sdf self)) k))) ?ks
        = map (\<lambda>k. if (\<exists>xs. map_of (columns (sdf self)) k = Some (NumCol xs) \<and> \<not> all_positive xs)
                    then [BoxCoxSkipped k] else []) ?ks"
    proof (rule map_cong[OF refl])
      fix k assume "k \<in> set ?ks"
      then obtain xs where "map_of (columns (sdf self)) k = Some (NumCol xs)"
        using skewed_is_numeric[OF dist] by blast
      then show "?out k (the (map_of (columns (sdf self)) k))
          = (if (\<exists>xs. map_of (columns (sdf self)) k = Some (NumCol xs) \<and> \<not> all_positive xs)
             then [BoxCoxSkipped k] else [])"
        by simp
    qed
    then show ?thesis unfolding s'(4) by (simp only: concat_singletons)
  qed
  show "\<exists>self'. transform_box_cox boxcox t self = Inr self'
      \<and> names (sdf self') = names (sdf self)
      \<and> (\<forall>n xs v. (n, NumCol xs) \<in> set (columns (sdf self))
             \<and> n \<in> set (identify_skewed_columns t self)
             \<and> Some v \<in> set xs \<and> v \<le> 0 \<longrightarrow>
             map_of (columns (sdf self')) n = Some (NumCol xs)
             \<and> BoxCoxSkipped n \<in> set (sprinted self'))
      \<and> (\<forall>n xs. (n, NumCol xs) \<in> set (columns (sdf self))
             \<and> n \<in> set (identify_skewed_columns t self) \<and> all_positive xs \<longrightarrow>
             (\<exists>ys l. boxcox (map the xs) = Inr (ys, l)
                \<and> map_of (columns (sdf self')) n = Some (NumCol (map Some ys))))
      \<and> (\<forall>n c. (n, c) \<in> set (columns (sdf self))
             \<and> \<not> (n \<in> set (identify_skewed_columns t self)
                    \<and> (\<exists>xs. c = NumCol xs \<and> all_positive xs)) \<longrightarrow>
             map_of (columns (sdf self')) n = Some c)
      \<and> sprinted self' = sprinted self
           @ map BoxCoxSkipped
               (filter (\<lambda>n. \<exists>xs. map_of (columns (sdf self)) n = Some (NumCol xs)
                               \<and> \<not> all_positive xs)
                  (identify_skewed_columns t self))"
  proof (intro exI[of _ s'] conjI allI impI)
    show "transform_box_cox boxcox t self = Inr s'" by (rule run)
    show "names (sdf s') = names (sdf self)" by (rule s'(2))
    show "sprinted s' = sprinted self
           @ map BoxCoxSkipped
               (filter (\<lambda>n. \<exists>xs. map_of (columns (sdf self)) n = Some (NumCol xs)
                               \<and> \<not> all_positive xs)
                  (identify_skewed_columns t self))" by (rule notices)
  next
    fix n xs v
    assume "(n, NumCol xs) \<in> set (columns (sdf self))
             \<and> n \<in> set (identify_skewed_columns t self) \<and> Some v \<in> set xs \<and> v \<le> 0"
    then show "map_of (columns (sdf s')) n = Some (NumCol xs)"
      and "BoxCoxSkipped n \<in> set (sprinted s')" using skip by blast+
  next
    fix n xs
    assume "(n, NumCol xs) \<in> set (columns (sdf self))
             \<and> n \<in> set (identify_skewed_columns t self) \<and> all_positive xs"
    then show "\<exists>ys l. boxcox (map the xs) = Inr (ys, l)
                \<and> map_of (columns (sdf s')) n = Some (NumCol (map Some ys))"
      by (rule pos)
  next
    fix n c
    assume "(n, c) \<in> set (columns (sdf self))
             \<and> \<not> (n \<in> set (identify_skewed_columns t self)
                    \<and> (\<exists>xs. c = NumCol xs \<and> all_positive xs))"
    then show "map_of (columns (sdf s')) n = Some c" by (rule other)
  qed
qed

lemma skew_w: "skew [Some 0, Some 0, Some 0, Some 0, Some 5] = Some (10 / sqrt 20)"
  by (simp add: skew_def zero_out_fperr_def Let_def power2_eq_square power3_eq_cube sqrt4 field_simps)

lemma skew_w_gt: "\<bar>10 / sqrt 20\<bar> > (2::real)"
proof -
  have "sqrt 20 < sqrt (5\<^sup>2)"
    by (subst real_sqrt_less_iff) (simp add: power2_eq_square)
  then have "2 * sqrt 20 < 10" by simp
  moreover have "sqrt 20 > 0" by simp
  ultimately have "2 < 10 / sqrt 20" by (simp add: pos_less_divide_eq)
  then show ?thesis by simp
qed

lemma identify_skewed_boxcox_frame:
  "identify_skewed_columns 2 (SkewTransform_init boxcox_frame) = [''x'', ''w'']"
  using skew_x_gt skew_w_gt
  by (simp add: identify_skewed_columns_def SkewTransform_init_def boxcox_frame_def
      select_dtypes_number_def List.map_filter_def skew_x skew_w)

theorem transform_box_cox_skips_non_positive_witness:
  "distinct (names (sdf (SkewTransform_init boxcox_frame)))
   \<and> (''x'', NumCol [Some 1, Some 1, Some 1, Some 1, Some 100])
        \<in> set (columns (sdf (SkewTransform_init boxcox_frame)))
   \<and> all_positive [Some 1, Some 1, Some 1, Some 1, Some 100]
   \<and> (''w'', NumCol [Some 0, Some 0, Some 0, Some 0, Some 5])
        \<in> set (columns (sdf (SkewTransform_init boxcox_frame)))
   \<and> identify_skewed_columns 2 (SkewTransform_init boxcox_frame) = [''x'', ''w'']
   \<and> (\<exists>self'. transform_box_cox (\<lambda>xs. Inr (map ln xs, 0)) 2 (SkewTransform_init boxcox_frame)
                 = Inr self'
        \<and> map_of (columns (sdf self')) ''w''
            = Some (NumCol [Some 0, Some 0, Some 0, Some 0, Some 5])
        \<and> map_of (columns (sdf self')) ''x''
            = Some (NumCol [Some 0, Some 0, Some 0, Some 0, Some (ln 100)])
        \<and> sprinted self' = [BoxCoxSkipped ''w''])"
proof -
  let ?bc = "\<lambda>xs :: real list. (Inr (map ln xs, 0) :: error + real list \<times> real)"
  let ?S = "SkewTransform_init boxcox_frame"
  let ?xs = "[Some 1, Some 1, Some 1, Some 1, Some (100::real)]"
  let ?ws = "[Some 0, Some 0, Some 0, Some 0, Some (5::real)]"
  have dist: "distinct (names (sdf ?S))"
    by (simp add: names_def SkewTransform_init_def boxcox_frame_def)
  have memx: "(''x'', NumCol ?xs) \<in> set (columns (sdf ?S))"
    by (simp add: SkewTransform_init_def boxcox_frame_def)
  have memw: "(''w'', NumCol ?ws) \<in> set (columns (sdf ?S))"
    by (simp add: SkewTransform_init_def boxcox_frame_def)
  have apx: "all_positive ?xs" by (simp add: all_positive_def)
  have npw: "\<not> all_positive ?ws" by (simp add: all_positive_def)
  have skx: "''x'' \<in> set (identify_skewed_columns 2 ?S)"
    and skw: "''w'' \<in> set (identify_skewed_columns 2 ?S)"
    by (simp_all add: identify_skewed_boxcox_frame)
  have ok: "\<forall>n xs. (n, NumCol xs) \<in> set (columns (sdf ?S))
          \<and> n \<in> set (identify_skewed_columns 2 ?S)
          \<and> all_positive xs \<longrightarrow> (\<exists>ys l. ?bc (map the xs) = Inr (ys, l))"
    by simp
  have zero: "Some 0 \<in> set ?ws" by simp
  have le: "(0::real) \<le> 0" by simp
  from transform_box_cox_skips_non_positive[of ?S 2 ?bc] dist ok
  obtain self' where s': "transform_box_cox ?bc 2 ?S = Inr self'"
    "\<forall>n xs v. (n, NumCol xs) \<in> set (columns (sdf ?S))
             \<and> n \<in> set (identify_skewed_columns 2 ?S)
             \<and> Some v \<in> set xs \<and> v \<le> 0 \<longrightarrow>
             map_of (columns (sdf self')) n = Some (NumCol xs)
             \<and> BoxCoxSkipped n \<in> set (sprinted self')"
    "\<forall>n xs. (n, NumCol xs) \<in> set (columns (sdf ?S))
             \<and> n \<in> set (identify_skewed_columns 2 ?S) \<and> all_positive xs \<longrightarrow>
             (\<exists>ys l. ?bc (map the xs) = Inr (ys, l)
                \<and> map_of (columns (sdf self')) n = Some (NumCol (map Some ys)))"
    "sprinted self' = sprinted ?S
           @ map BoxCoxSkipped
               (filter (\<lambda>n. \<exists>xs. map_of (columns (sdf ?S)) n = Some (NumCol xs)
                               \<and> \<not> all_positive xs)
                  (identify_skewed_columns 2 ?S))"
    by blast
  have w: "map_of (columns (sdf self')) ''w'' = Some (NumCol ?ws)"
    using s'(2) memw skw zero le by blast
  obtain ys l where yl: "?bc (map the ?xs) = Inr (ys, l)"
      "map_of (columns (sdf self')) ''x'' = Some (NumCol (map Some ys))"
    using s'(3) memx skx apx by blast
  have "ys = map ln (map the ?xs)" using yl(1) by simp
  then have x: "map_of (columns (sdf self')) ''x''
            = Some (NumCol [Some 0, Some 0, Some 0, Some 0, Some (ln 100)])"
    using yl(2) by simp
  have lx: "map_of (columns (sdf ?S)) ''x'' = Some (NumCol ?xs)"
    and lw: "map_of (columns (sdf ?S)) ''w'' = Some (NumCol ?ws)"
    by (simp_all add: SkewTransform_init_def boxcox_frame_def)
  have pr: "sprinted self' = [BoxCoxSkipped ''w'']"
    unfolding s'(4) identify_skewed_boxcox_frame
    using apx npw by (simp add: lx lw) (simp add: SkewTransform_init_def)
  have "\<exists>self'. transform_box_cox ?bc 2 ?S = Inr self'
        \<and> map_of (columns (sdf self')) ''w'' = Some (NumCol ?ws)
        \<and> map_of (columns (sdf self')) ''x''
            = Some (NumCol [Some 0, Some 0, Some 0, Some 0, Some (ln 100)])
        \<and> sprinted self' = [BoxCoxSkipped ''w'']"
    using s'(1) w x pr by (intro exI[of _ self'] conjI)
  with dist memx apx memw identify_skewed_boxcox_frame show ?thesis by (intro conjI)
qed

end
